theory Spec2Isabelle
  imports Complex_Main
begin

section \<open>Data model\<close>

text \<open>
  Instants are JavaScript \<open>Date\<close> values: milliseconds since the epoch. Identifiers
  are the \<open>ObjectId\<close>s of the document store; the store hands them out from a counter
  (\<open>nextId\<close>), so that two documents created by the program never share one.
  A collection is the list of its documents in insertion order.
  The \<open>createdAt\<close>/\<open>updatedAt\<close> stamps of the Slot schema and the \<open>updatedAt\<close>
  stamp of the Booking schema are written but never read by the controllers; they are
  left out. The human-readable \<open>message\<close> of a response is left out as well: a
  response is its HTTP status with its error code or its data.
\<close>

type_synonym instant = int
type_synonym oid = nat

datatype bstatus = Confirmed | Cancelled | Completed

datatype role = Patient | Admin

record slot =
  slot_id :: oid
  startAt :: instant
  endAt :: instant
  isBooked :: bool

record booking =
  booking_id :: oid
  userId :: oid
  slotId :: oid
  status :: bstatus
  createdAt :: instant

record user =
  user_id :: oid
  role :: role

record db =
  slots :: "slot list"
  bookings :: "booking list"
  nextId :: oid

text \<open>
  An identifier as a request carries it (\<open>req.body.slotId\<close>, \<open>req.params.bookingId\<close>),
  a string: either one that mongoose cannot cast to an ObjectId, on which \<open>findById\<close>
  rejects with a \<open>CastError\<close>, or the ObjectId the string denotes. A body field may
  also be absent (or falsy, as the empty string): \<open>None\<close>. A route parameter is always
  a string; a JSON body could also carry a value that is not a string (an object of
  query operators, say), which this type does not represent.
\<close>

datatype reqId = NotObjectId | ObjectId oid

text \<open>What the handlers can catch: \<open>error.code\<close> is set on server errors only.\<close>

datatype exn = CastError | Error string | DocumentNotFoundError | MongoServerError nat

fun exn_code :: "exn \<Rightarrow> nat option" where
  "exn_code (MongoServerError c) = Some c"
| "exn_code _ = None"

datatype 'a response = Failure nat string | Success nat 'a

section \<open>Store operations\<close>

fun updFirst :: "('a \<Rightarrow> bool) \<Rightarrow> ('a \<Rightarrow> 'a) \<Rightarrow> 'a list \<Rightarrow> 'a list" where
  "updFirst P f [] = []"
| "updFirst P f (x # xs) = (if P x then f x # xs else x # updFirst P f xs)"

fun delFirst :: "('a \<Rightarrow> bool) \<Rightarrow> 'a list \<Rightarrow> 'a list" where
  "delFirst P [] = []"
| "delFirst P (x # xs) = (if P x then xs else x # delFirst P xs)"

definition findSlotById :: "db \<Rightarrow> oid \<Rightarrow> slot option" where
  "findSlotById d i = find (\<lambda>s. slot_id s = i) (slots d)"

definition findBookingById :: "db \<Rightarrow> oid \<Rightarrow> booking option" where
  "findBookingById d i = find (\<lambda>b. booking_id b = i) (bookings d)"

text \<open>\<open>Slot.findOne({startAt, endAt})\<close>\<close>

definition findSlotByTimes :: "db \<Rightarrow> instant \<Rightarrow> instant \<Rightarrow> slot option" where
  "findSlotByTimes d s e = find (\<lambda>x. startAt x = s \<and> endAt x = e) (slots d)"

text \<open>
  \<open>Slot.find({startAt: {$lt: slot.endAt}, endAt: {$gt: slot.startAt}}).distinct('_id')\<close>
  (bookingController, lines 54 to 57).
\<close>

definition overlappingSlotIds :: "db \<Rightarrow> slot \<Rightarrow> oid list" where
  "overlappingSlotIds d s =
     remdups (map slot_id (filter (\<lambda>x. startAt x < endAt s \<and> endAt x > startAt s) (slots d)))"

text \<open>
  \<open>Booking.findOne({userId, status: 'confirmed', slotId: {$in: ids}})\<close>
  (bookingController, lines 51 to 58).
\<close>

definition findConfirmedBooking :: "db \<Rightarrow> oid \<Rightarrow> oid list \<Rightarrow> booking option" where
  "findConfirmedBooking d u ids =
     find (\<lambda>b. userId b = u \<and> status b = Confirmed \<and> slotId b \<in> set ids) (bookings d)"

text \<open>
  The pre-save middleware of the Slot schema (models/Slot.js): it refuses
  \<open>startAt >= endAt\<close>.
\<close>

definition slotPreSave :: "slot \<Rightarrow> exn option" where
  "slotPreSave s =
     (if startAt s \<ge> endAt s then Some (Error ''Start time must be before end time'') else None)"

text \<open>
  \<open>slot.save()\<close> of a loaded slot \<open>s\<close> whose \<open>isBooked\<close> was assigned: the pre-save
  middleware of the Slot schema runs on the loaded document, then that field is updated
  on the document with the slot's id; mongoose raises \<open>DocumentNotFoundError\<close> when
  the document is gone.
\<close>

definition saveSlotBooked :: "db \<Rightarrow> slot \<Rightarrow> db \<times> exn option" where
  "saveSlotBooked d s =
     (case slotPreSave s of
        Some e \<Rightarrow> (d, Some e)
      | None \<Rightarrow>
          (case findSlotById d (slot_id s) of
             None \<Rightarrow> (d, Some DocumentNotFoundError)
           | Some _ \<Rightarrow>
               (d\<lparr>slots := updFirst (\<lambda>x. slot_id x = slot_id s)
                              (\<lambda>x. x\<lparr>isBooked := isBooked s\<rparr>) (slots d)\<rparr>, None)))"

text \<open>
  The insert of a booking document. The Booking schema declares plain indexes on
  \<open>userId\<close> and \<open>slotId\<close> and no unique one, so the only uniqueness the collection
  enforces is that of \<open>_id\<close>: a duplicate raises the server's error 11000.
\<close>

definition insertBooking :: "db \<Rightarrow> booking \<Rightarrow> db \<times> exn option" where
  "insertBooking d b =
     (if booking_id b \<in> set (map booking_id (bookings d))
      then (d, Some (MongoServerError 11000))
      else (d\<lparr>bookings := bookings d @ [b]\<rparr>, None))"

text \<open>
  The pre-save middleware of the Booking schema (models/Booking.js, lines 32 to 59),
  for a new booking: it loads the slot, refuses when the slot is missing or flagged,
  and flags it otherwise.
\<close>

definition bookingPreSave :: "db \<Rightarrow> booking \<Rightarrow> db \<times> exn option" where
  "bookingPreSave d b =
     (case findSlotById d (slotId b) of
        None \<Rightarrow> (d, Some (Error ''Slot not found''))
      | Some s \<Rightarrow>
          if isBooked s then (d, Some (Error ''Slot is already booked''))
          else saveSlotBooked d (s\<lparr>isBooked := True\<rparr>))"

text \<open>\<open>booking.save()\<close> of a new booking: the middleware, then the insert.\<close>

definition saveNewBooking :: "db \<Rightarrow> booking \<Rightarrow> db \<times> exn option" where
  "saveNewBooking d b =
     (case bookingPreSave d b of
        (d1, Some e) \<Rightarrow> (d1, Some e)
      | (d1, None) \<Rightarrow> insertBooking d1 b)"

text \<open>
  \<open>booking.save()\<close> of a loaded booking whose status was assigned: the middleware
  returns at once (\<open>isNew\<close> is false) and the status of the document is written.
  Bookings are never deleted, so the document is there.
\<close>

definition saveBookingStatus :: "db \<Rightarrow> oid \<Rightarrow> bstatus \<Rightarrow> db" where
  "saveBookingStatus d i v =
     d\<lparr>bookings := updFirst (\<lambda>b. booking_id b = i) (\<lambda>b. b\<lparr>status := v\<rparr>) (bookings d)\<rparr>"

text \<open>\<open>Slot.findByIdAndUpdate(id, {isBooked: v}, {new: true})\<close>: the updated slot, or null.\<close>

definition findSlotByIdAndUpdate :: "db \<Rightarrow> oid \<Rightarrow> bool \<Rightarrow> db \<times> slot option" where
  "findSlotByIdAndUpdate d i v =
     (case findSlotById d i of
        None \<Rightarrow> (d, None)
      | Some s \<Rightarrow>
          (d\<lparr>slots := updFirst (\<lambda>s. slot_id s = i) (\<lambda>s. s\<lparr>isBooked := v\<rparr>) (slots d)\<rparr>,
           Some (s\<lparr>isBooked := v\<rparr>)))"

section \<open>Booking controller\<close>

text \<open>The data of the 201 response of \<open>bookSlot\<close> and of the 200 response of \<open>cancelBooking\<close>.\<close>

record bookingView =
  bv_id :: oid
  bv_slot :: oid
  bv_startAt :: instant
  bv_endAt :: instant
  bv_status :: bstatus
  bv_createdAt :: instant

text \<open>The \<open>catch\<close> block of \<open>bookSlot\<close> (lines 96 to 114).\<close>

definition bookSlotCatch :: "exn \<Rightarrow> bookingView response" where
  "bookSlotCatch e =
     (if exn_code e = Some 11000 then Failure 409 ''SLOT_TAKEN''
      else Failure 500 ''BOOKING_ERROR'')"

text \<open>
  \<open>bookSlot\<close> (bookingController, lines 6 to 115) for the authenticated user \<open>u\<close> at
  the clock reading \<open>now\<close>. The route runs the \<open>isMongoId\<close> validation chain before
  the handler, but the handler never reads its result (no \<open>validationResult\<close>), so
  the chain decides nothing. \<open>new Booking\<close> draws the next identifier. The final
  \<open>populate\<close> reads the slot again and changes neither the store nor the response,
  which is built from the slot loaded first.
\<close>

definition newBooking :: "db \<Rightarrow> oid \<Rightarrow> oid \<Rightarrow> instant \<Rightarrow> booking" where
  "newBooking d u i now =
     \<lparr>booking_id = nextId d, userId = u, slotId = i, status = Confirmed, createdAt = now\<rparr>"

definition bookingCreated :: "booking \<Rightarrow> slot \<Rightarrow> bookingView response" where
  "bookingCreated b s =
     Success 201 \<lparr>bv_id = booking_id b, bv_slot = slot_id s, bv_startAt = startAt s,
       bv_endAt = endAt s, bv_status = status b, bv_createdAt = createdAt b\<rparr>"

definition bookSlot :: "db \<Rightarrow> instant \<Rightarrow> oid \<Rightarrow> reqId option \<Rightarrow> db \<times> bookingView response" where
  "bookSlot d now u sid =
     (case sid of
        None \<Rightarrow> (d, Failure 400 ''MISSING_SLOT_ID'')
      | Some NotObjectId \<Rightarrow> (d, bookSlotCatch CastError)
      | Some (ObjectId i) \<Rightarrow>
         (case findSlotById d i of
            None \<Rightarrow> (d, Failure 404 ''SLOT_NOT_FOUND'')
          | Some s \<Rightarrow>
              if isBooked s then (d, Failure 409 ''SLOT_TAKEN'')
              else if startAt s < now then (d, Failure 400 ''PAST_SLOT'')
              else
                (case findConfirmedBooking d u (overlappingSlotIds d s) of
                   Some _ \<Rightarrow> (d, Failure 409 ''OVERLAPPING_BOOKING'')
                 | None \<Rightarrow>
                     (case saveNewBooking (d\<lparr>nextId := Suc (nextId d)\<rparr>) (newBooking d u i now) of
                        (d1, Some e) \<Rightarrow> (d1, bookSlotCatch e)
                      | (d1, None) \<Rightarrow> (d1, bookingCreated (newBooking d u i now) s)))))"

text \<open>
  \<open>cancelBooking\<close> (bookingController, lines 198 to 276). The booking id is a route
  parameter, so it is always present.
\<close>

definition cancelBooking :: "db \<Rightarrow> instant \<Rightarrow> user \<Rightarrow> reqId \<Rightarrow> db \<times> (oid \<times> bstatus) response" where
  "cancelBooking d now usr bid =
     (case bid of
        NotObjectId \<Rightarrow> (d, Failure 500 ''CANCEL_BOOKING_ERROR'')
      | ObjectId i \<Rightarrow>
         (case findBookingById d i of
            None \<Rightarrow> (d, Failure 404 ''BOOKING_NOT_FOUND'')
          | Some b \<Rightarrow>
              if userId b \<noteq> user_id usr \<and> role usr \<noteq> Admin
              then (d, Failure 403 ''INSUFFICIENT_PERMISSIONS'')
              else
                (case findSlotById d (slotId b) of
                   None \<Rightarrow> (d, Failure 404 ''SLOT_NOT_FOUND'')
                 | Some s \<Rightarrow>
                     if startAt s < now then (d, Failure 400 ''PAST_BOOKING'')
                     else
                       (case findSlotByIdAndUpdate (saveBookingStatus d i Cancelled) (slotId b) False of
                          (d1, None) \<Rightarrow> (d1, Failure 500 ''SLOT_UPDATE_FAILED'')
                        | (d1, Some _) \<Rightarrow> (d1, Success 200 (booking_id b, Cancelled))))))"

section \<open>Clock\<close>

text \<open>
  The \<open>Date\<close> methods the slot controller uses. The ones without UTC in their name
  (\<open>getDay\<close>, \<open>setHours\<close>) read the server's local time, which is \<open>tz\<close> milliseconds
  ahead of UTC; the offset is taken constant (no daylight saving change). On the single
  canonical clock of the specification \<open>tz\<close> is 0. January 1st, 1970 was a Thursday
  (day 4, Sunday being day 0).
\<close>

definition msPerDay :: int where
  "msPerDay = 1000 * 60 * 60 * 24"

definition utcDay :: "instant \<Rightarrow> int" where
  "utcDay t = t div msPerDay"

definition utcDayStart :: "instant \<Rightarrow> instant" where
  "utcDayStart t = utcDay t * msPerDay"

definition getDay :: "int \<Rightarrow> instant \<Rightarrow> int" where
  "getDay tz t = ((t + tz) div msPerDay + 4) mod 7"

text \<open>\<open>now.setHours(0, 0, 0, 0)\<close>: the start of the local day.\<close>

definition localMidnight :: "int \<Rightarrow> instant \<Rightarrow> instant" where
  "localMidnight tz t = t - (t + tz) mod msPerDay"

text \<open>\<open>Math.ceil(a / b)\<close> for integers \<open>a\<close> and \<open>b > 0\<close>.\<close>

definition ceilDiv :: "int \<Rightarrow> int \<Rightarrow> int" where
  "ceilDiv a b = - ((- a) div b)"

text \<open>
  A date parameter after \<open>new Date(...)\<close>: an Invalid Date (its time value is NaN, and so
  is everything computed from it) or an instant. An absent (or empty) parameter is \<open>None\<close>.
  The time value of a \<open>Date\<close> is at most \<open>maxTime\<close> milliseconds away from the epoch;
  \<open>new Date(v)\<close> for a number beyond is an Invalid Date.
\<close>

datatype jsDate = InvalidDate | Date instant

definition maxTime :: int where
  "maxTime = 8640000000000000"

definition timeClip :: "int \<Rightarrow> jsDate" where
  "timeClip v = (if \<bar>v\<bar> \<le> maxTime then Date v else InvalidDate)"

text \<open>
  The civil date (year, month 1 to 12, day of the month) of a UTC day number in the
  proleptic Gregorian calendar, and the day number of a civil date.
\<close>

definition civilFromDays :: "int \<Rightarrow> int \<times> int \<times> int" where
  "civilFromDays z =
     (let doe = (z + 719468) mod 146097;
          yoe = (doe - doe div 1460 + doe div 36524 - doe div 146096) div 365;
          doy = doe - (365 * yoe + yoe div 4 - yoe div 100);
          mp = (5 * doy + 2) div 153;
          m = (if mp < 10 then mp + 3 else mp - 9);
          y = yoe + ((z + 719468) div 146097) * 400
      in (if m \<le> 2 then y + 1 else y, m, doy - (153 * mp + 2) div 5 + 1))"

definition daysFromCivil :: "int \<Rightarrow> int \<Rightarrow> int \<Rightarrow> int" where
  "daysFromCivil y m dd =
     (let y' = (if m \<le> 2 then y - 1 else y);
          yoe = y' mod 400;
          doy = (153 * (if m > 2 then m - 3 else m + 9) + 2) div 5 + dd - 1
      in (y' div 400) * 146097 + (yoe * 365 + yoe div 4 - yoe div 100 + doy) - 719468)"

text \<open>The first instants of the years 0 and 100.\<close>

definition year0 :: instant where
  "year0 = - 62167219200000"

definition year100 :: instant where
  "year100 = - 59011459200000"

text \<open>
  \<open>new Date(Date.UTC(x.getUTCFullYear(), x.getUTCMonth(), x.getUTCDate(), h, m, s))\<close>
  for a date \<open>x\<close>, with \<open>tod\<close> the milliseconds of \<open>h:m:s\<close>. \<open>Date.UTC\<close> puts together
  the UTC day of the instant and the time of day, except that it reads a year from 0 to
  99 as 1900 to 1999: for an instant of those years the day is the day of the month
  counted from the first of that month in the year 1900 + y. The result is an Invalid
  Date when it is beyond \<open>maxTime\<close>, and when \<open>x\<close> is one.
\<close>

definition dateUTC :: "jsDate \<Rightarrow> int \<Rightarrow> jsDate" where
  "dateUTC x tod =
     (case x of
        InvalidDate \<Rightarrow> InvalidDate
      | Date t \<Rightarrow>
          timeClip
            ((if year0 \<le> t \<and> t < year100
              then (case civilFromDays (utcDay t) of
                      (y, m, dd) \<Rightarrow> daysFromCivil (1900 + y) m 1 + dd - 1)
              else utcDay t) * msPerDay + tod))"

text \<open>
  The dates for which \<open>Date.UTC\<close> of the UTC date is the start of the UTC day plus
  the time of day: a date outside the years 0 to 99, not before the first time value,
  whose last second is not after the last one.
\<close>

definition plainDay :: "instant \<Rightarrow> bool" where
  "plainDay t =
     (\<not> (year0 \<le> t \<and> t < year100) \<and> - maxTime \<le> t \<and> utcDayStart t + 86399000 \<le> maxTime)"

text \<open>
  A number as JavaScript reads \<open>req.body.days\<close> in a comparison or a subtraction: not
  a number (\<open>NaN\<close>, as for the string "abc"), infinite, or a finite number.
\<close>

datatype jsNumber = NaN | Infinite | Num rat

section \<open>Slot controller\<close>

record slotView =
  sv_id :: oid
  sv_startAt :: instant
  sv_endAt :: instant
  sv_durationMinutes :: int
  sv_isBooked :: bool

text \<open>
  The virtual \<open>durationMinutes\<close> of the Slot schema:
  \<open>Math.round((endAt - startAt) / (1000 * 60))\<close>, halves rounded up.
\<close>

definition durationMinutes :: "slot \<Rightarrow> int" where
  "durationMinutes s = (2 * (endAt s - startAt s) + 60000) div 120000"

definition viewOf :: "slot \<Rightarrow> slotView" where
  "viewOf s = \<lparr>sv_id = slot_id s, sv_startAt = startAt s, sv_endAt = endAt s,
     sv_durationMinutes = durationMinutes s, sv_isBooked = isBooked s\<rparr>"

text \<open>
  The \<open>forEach\<close> that groups the slots by date key: the key is the UTC date of
  \<open>startAt\<close> (\<open>toISOString().split('T')[0]\<close>), here the number of the UTC day; keys keep
  the order of their first slot.
\<close>

fun pushGroup :: "int \<Rightarrow> slotView \<Rightarrow> (int \<times> slotView list) list \<Rightarrow> (int \<times> slotView list) list" where
  "pushGroup k v [] = [(k, [v])]"
| "pushGroup k v ((k', vs) # g) =
     (if k = k' then (k', vs @ [v]) # g else (k', vs) # pushGroup k v g)"

definition groupByDate :: "slot list \<Rightarrow> (int \<times> slotView list) list" where
  "groupByDate ss = foldl (\<lambda>g s. pushGroup (utcDay (startAt s)) (viewOf s) g) [] ss"

record slotListing =
  sl_slots :: "(int \<times> slotView list) list"
  sl_totalSlots :: nat
  sl_from :: instant
  sl_to :: instant

text \<open>\<open>Slot.find({startAt: {$gte: fromDate, $lte: toDate}, ...}).sort({startAt: 1})\<close>\<close>

definition findSlotsInRange :: "db \<Rightarrow> instant \<Rightarrow> instant \<Rightarrow> bool \<Rightarrow> slot list" where
  "findSlotsInRange d fromDate toDate freeOnly =
     sort_key startAt
       (filter (\<lambda>s. fromDate \<le> startAt s \<and> startAt s \<le> toDate \<and> (if freeOnly then isBooked s = False else True))
          (slots d))"

definition listing :: "db \<Rightarrow> instant \<Rightarrow> instant \<Rightarrow> bool \<Rightarrow> slotListing" where
  "listing d fromDate toDate freeOnly =
     \<lparr>sl_slots = groupByDate (findSlotsInRange d fromDate toDate freeOnly),
      sl_totalSlots = length (findSlotsInRange d fromDate toDate freeOnly),
      sl_from = fromDate, sl_to = toDate\<rparr>"

text \<open>\<open>getAllSlots\<close> (slotController, lines 4 to 72), the admin listing.\<close>

definition getAllSlots :: "db \<Rightarrow> jsDate option \<Rightarrow> jsDate option \<Rightarrow> slotListing response" where
  "getAllSlots d from to =
     (case (from, to) of
        (Some f, Some t) \<Rightarrow>
          (case (dateUTC f 0, dateUTC t 86399000) of
             (Date fromDate, Date toDate) \<Rightarrow> Success 200 (listing d fromDate toDate False)
           | _ \<Rightarrow> Failure 400 ''INVALID_DATE_FORMAT'')
      | _ \<Rightarrow> Failure 400 ''MISSING_DATES'')"

text \<open>
  \<open>getAvailableSlots\<close> (slotController, lines 75 to 168), the patient-facing listing.
  \<open>includeBooked\<close> is whether the query parameter is a non-empty string.
\<close>

definition getAvailableSlots ::
  "int \<Rightarrow> db \<Rightarrow> instant \<Rightarrow> jsDate option \<Rightarrow> jsDate option \<Rightarrow> bool \<Rightarrow> slotListing response" where
  "getAvailableSlots tz d now from to includeBooked =
     (case (from, to) of
        (Some f, Some t) \<Rightarrow>
          (case (dateUTC f 0, dateUTC t 86399000) of
             (Date fromDate, Date toDate) \<Rightarrow>
               if fromDate < localMidnight tz now then Failure 400 ''PAST_DATE''
               else if ceilDiv (toDate - fromDate) msPerDay > 7
               then Failure 400 ''DATE_RANGE_TOO_LARGE''
               else Success 200 (listing d fromDate toDate (\<not> includeBooked))
           | _ \<Rightarrow> Failure 400 ''INVALID_DATE_FORMAT'')
      | _ \<Rightarrow> Failure 400 ''MISSING_DATES'')"

text \<open>
  The two inner loops of \<open>generateSlots\<close> (lines 201 to 222) without the lookup of an
  existing slot: the half-hour slots of the UTC day of \<open>currentDate\<close>, hours 9 to 16,
  minutes 0 and 30; \<open>slotStart\<close> is \<open>Date.UTC\<close> of the UTC date of \<open>currentDate\<close> and
  the hour and minute, \<open>slotEnd\<close> is 30 minutes later.
\<close>

definition daySlotTimes :: "instant \<Rightarrow> (instant \<times> instant) list" where
  "daySlotTimes currentDate =
     concat (map (\<lambda>hour. map (\<lambda>minute.
         (utcDayStart currentDate + int hour * 3600000 + int minute * 60000,
          utcDayStart currentDate + int hour * 3600000 + int minute * 60000 + 30 * 60000))
       [0, 30]) [9..<17])"

text \<open>
  The outer loop (lines 191 to 223): \<open>setDate(getDate() + day)\<close> moves \<open>startDate\<close> by
  whole days, and a day whose local \<open>getDay()\<close> is 0 or 6 is skipped.
\<close>

definition weekdaySlotTimes :: "int \<Rightarrow> instant \<Rightarrow> nat \<Rightarrow> (instant \<times> instant) list" where
  "weekdaySlotTimes tz startDate days =
     concat (map (\<lambda>day.
         if getDay tz (startDate + int day * msPerDay) = 0
            \<or> getDay tz (startDate + int day * msPerDay) = 6
         then []
         else daySlotTimes (startDate + int day * msPerDay))
       [0..<days])"

definition insertSlot :: "db \<Rightarrow> instant \<times> instant \<Rightarrow> db" where
  "insertSlot d p =
     d\<lparr>slots := slots d @ [\<lparr>slot_id = nextId d, startAt = fst p, endAt = snd p, isBooked = False\<rparr>],
       nextId := Suc (nextId d)\<rparr>"

text \<open>
  The slots that inserting the times \<open>ps\<close> one after the other appends to the store,
  the counter being at \<open>n\<close>.
\<close>

fun newSlots :: "oid \<Rightarrow> (instant \<times> instant) list \<Rightarrow> slot list" where
  "newSlots n [] = []"
| "newSlots n (p # ps) =
     \<lparr>slot_id = n, startAt = fst p, endAt = snd p, isBooked = False\<rparr> # newSlots (Suc n) ps"

text \<open>The slots of the store \<open>d'\<close> that come after those of the store \<open>d\<close>.\<close>

definition insertedSlots :: "db \<Rightarrow> db \<Rightarrow> slot list" where
  "insertedSlots d d' = drop (length (slots d)) (slots d')"

text \<open>
  The weekend test of \<open>generateSlots\<close> for a day of the window: \<open>getDay()\<close>, on the
  server's local clock, of 9:00 UTC of the UTC day \<open>dayNo\<close>, is 0 or 6.
\<close>

definition localWeekend :: "int \<Rightarrow> int \<Rightarrow> bool" where
  "localWeekend tz dayNo =
     (getDay tz (dayNo * msPerDay + 9 * 3600000) = 0
      \<or> getDay tz (dayNo * msPerDay + 9 * 3600000) = 6)"

text \<open>
  \<open>generateSlots\<close> (slotController, lines 171 to 248) at the clock reading \<open>now\<close>,
  which is taken from the year 100 on and at least 32 days before \<open>maxTime\<close>, so that
  every date of the loops is the UTC day start plus the time of day. \<open>startDate\<close> is
  9:00 UTC of the day after \<open>now\<close>. \<open>days\<close> defaults to 7 when the body has none.
  Every comparison with \<open>NaN\<close> is false: the range check passes, the loop
  \<open>for (day = 0; day < days; day++)\<close> does not run, and \<open>toISOString\<close> of the invalid
  end date of the response throws, which the \<open>catch\<close> block answers with 500. For a
  finite number the loop runs for the days 0, 1, ... below it. The loops only read the
  store and \<open>insertMany\<close> runs after them, so the slots pushed are the generated times
  that no slot of the store has yet. The response carries the number of slots inserted;
  its date range (\<open>startDate\<close> and an end date computed in floating point) is left out.
\<close>

definition generateSlots ::
  "int \<Rightarrow> db \<Rightarrow> instant \<Rightarrow> jsNumber option \<Rightarrow> db \<times> nat response" where
  "generateSlots tz d now daysParam =
     (case (case daysParam of None \<Rightarrow> Num 7 | Some n \<Rightarrow> n) of
        NaN \<Rightarrow> (d, Failure 500 ''GENERATE_SLOTS_ERROR'')
      | Infinite \<Rightarrow> (d, Failure 400 ''INVALID_DAYS'')
      | Num days \<Rightarrow>
          if days < 1 \<or> days > 30 then (d, Failure 400 ''INVALID_DAYS'')
          else
            (let startDate = utcDayStart (now + msPerDay) + 9 * 3600000;
                 new = filter (\<lambda>p. findSlotByTimes d (fst p) (snd p) = None)
                         (weekdaySlotTimes tz startDate (nat \<lceil>days\<rceil>))
             in (foldl insertSlot d new, Success 200 (length new))))"

text \<open>
  \<open>addSlot\<close> (slotController, lines 251 to 331); \<open>slot.save()\<close> runs the pre-save
  middleware of the Slot schema.
\<close>

definition addSlot :: "db \<Rightarrow> jsDate option \<Rightarrow> jsDate option \<Rightarrow> db \<times> slotView response" where
  "addSlot d sAt eAt =
     (case (sAt, eAt) of
        (Some s, Some e) \<Rightarrow>
          (case (s, e) of
             (Date startDate, Date endDate) \<Rightarrow>
               if startDate \<ge> endDate then (d, Failure 400 ''INVALID_TIME_RANGE'')
               else
                 (case findSlotByTimes d startDate endDate of
                    Some _ \<Rightarrow> (d, Failure 409 ''SLOT_EXISTS'')
                  | None \<Rightarrow>
                      (case slotPreSave \<lparr>slot_id = nextId d, startAt = startDate,
                                        endAt = endDate, isBooked = False\<rparr> of
                         Some _ \<Rightarrow> (d\<lparr>nextId := Suc (nextId d)\<rparr>, Failure 500 ''ADD_SLOT_ERROR'')
                       | None \<Rightarrow>
                           (insertSlot d (startDate, endDate),
                            Success 201 (viewOf \<lparr>slot_id = nextId d, startAt = startDate,
                                                 endAt = endDate, isBooked = False\<rparr>))))
           | _ \<Rightarrow> (d, Failure 400 ''INVALID_DATE_FORMAT''))
      | _ \<Rightarrow> (d, Failure 400 ''MISSING_DATES''))"

text \<open>\<open>removeSlot\<close> (slotController, lines 334 to 372).\<close>

definition removeSlot :: "db \<Rightarrow> reqId \<Rightarrow> db \<times> unit response" where
  "removeSlot d sid =
     (case sid of
        NotObjectId \<Rightarrow> (d, Failure 500 ''REMOVE_SLOT_ERROR'')
      | ObjectId i \<Rightarrow>
          (case findSlotById d i of
             None \<Rightarrow> (d, Failure 404 ''SLOT_NOT_FOUND'')
           | Some s \<Rightarrow>
               if isBooked s then (d, Failure 400 ''SLOT_BOOKED'')
               else (d\<lparr>slots := delFirst (\<lambda>x. slot_id x = i) (slots d)\<rparr>, Success 200 ())))"

section \<open>The core operations as a transition system\<close>

datatype op =
    BookSlot oid "reqId option" instant
  | CancelBooking user reqId instant
  | AddSlot "jsDate option" "jsDate option"
  | RemoveSlot reqId
  | GenerateSlots "jsNumber option" instant

fun exec :: "int \<Rightarrow> db \<Rightarrow> op \<Rightarrow> db" where
  "exec tz d (BookSlot u sid now) = fst (bookSlot d now u sid)"
| "exec tz d (CancelBooking usr bid now) = fst (cancelBooking d now usr bid)"
| "exec tz d (AddSlot s e) = fst (addSlot d s e)"
| "exec tz d (RemoveSlot sid) = fst (removeSlot d sid)"
| "exec tz d (GenerateSlots n now) = fst (generateSlots tz d now n)"

definition emptyDb :: db where
  "emptyDb = \<lparr>slots = [], bookings = [], nextId = 0\<rparr>"

text \<open>The store after a sequence of operations, one after the other.\<close>

definition execAll :: "int \<Rightarrow> db \<Rightarrow> op list \<Rightarrow> db" where
  "execAll tz d ops = foldl (exec tz) d ops"

text \<open>The confirmed bookings that reference a slot.\<close>

definition confirmedFor :: "db \<Rightarrow> oid \<Rightarrow> booking list" where
  "confirmedFor d i = filter (\<lambda>b. slotId b = i \<and> status b = Confirmed) (bookings d)"

section \<open>Concurrent requests\<close>

text \<open>
  Node runs a handler until its next \<open>await\<close>; another request may run between two
  awaits. A \<open>bookSlot\<close> request is therefore a sequence of steps, each one store
  operation followed by the code up to the next \<open>await\<close>, and the program counter says
  which store operation comes next:
  \<open>Slot.findById\<close> (line 21), \<open>Slot.find(...).distinct\<close> (line 54), \<open>Booking.findOne\<close>
  (line 51), then inside \<open>booking.save()\<close> (line 76) the middleware's \<open>Slot.findById\<close>
  (Booking.js, line 42) and \<open>slot.save()\<close> (line 53), and the insert of the booking.
  The local variables alive across an await (the slot loaded first, the identifiers found,
  the new booking, the slot the middleware loaded and flagged) travel with the program
  counter.
\<close>

record bookReq =
  rq_user :: oid
  rq_slotId :: "reqId option"
  rq_now :: instant

datatype bookPc =
    AtFindSlot
  | AtFindOverlapping slot
  | AtFindExisting slot "oid list"
  | AtHookFindSlot slot booking
  | AtHookSaveSlot slot booking slot
  | AtInsert slot booking
  | Finished "bookingView response"

fun bookStep :: "bookReq \<Rightarrow> db \<Rightarrow> bookPc \<Rightarrow> db \<times> bookPc" where
  "bookStep rq d AtFindSlot =
     (case rq_slotId rq of
        None \<Rightarrow> (d, Finished (Failure 400 ''MISSING_SLOT_ID''))
      | Some NotObjectId \<Rightarrow> (d, Finished (bookSlotCatch CastError))
      | Some (ObjectId i) \<Rightarrow>
          (case findSlotById d i of
             None \<Rightarrow> (d, Finished (Failure 404 ''SLOT_NOT_FOUND''))
           | Some s \<Rightarrow>
               if isBooked s then (d, Finished (Failure 409 ''SLOT_TAKEN''))
               else if startAt s < rq_now rq then (d, Finished (Failure 400 ''PAST_SLOT''))
               else (d, AtFindOverlapping s)))"
| "bookStep rq d (AtFindOverlapping s) = (d, AtFindExisting s (overlappingSlotIds d s))"
| "bookStep rq d (AtFindExisting s ids) =
     (case findConfirmedBooking d (rq_user rq) ids of
        Some _ \<Rightarrow> (d, Finished (Failure 409 ''OVERLAPPING_BOOKING''))
      | None \<Rightarrow>
          (d\<lparr>nextId := Suc (nextId d)\<rparr>,
           AtHookFindSlot s (newBooking d (rq_user rq) (slot_id s) (rq_now rq))))"
| "bookStep rq d (AtHookFindSlot s b) =
     (case findSlotById d (slotId b) of
        None \<Rightarrow> (d, Finished (bookSlotCatch (Error ''Slot not found'')))
      | Some hs \<Rightarrow>
          if isBooked hs then (d, Finished (bookSlotCatch (Error ''Slot is already booked'')))
          else (d, AtHookSaveSlot s b (hs\<lparr>isBooked := True\<rparr>)))"
| "bookStep rq d (AtHookSaveSlot s b hs) =
     (case saveSlotBooked d hs of
        (d1, Some e) \<Rightarrow> (d1, Finished (bookSlotCatch e))
      | (d1, None) \<Rightarrow> (d1, AtInsert s b))"
| "bookStep rq d (AtInsert s b) =
     (case insertBooking d b of
        (d1, Some e) \<Rightarrow> (d1, Finished (bookSlotCatch e))
      | (d1, None) \<Rightarrow> (d1, Finished (bookingCreated b s)))"
| "bookStep rq d (Finished r) = (d, Finished r)"

text \<open>
  Requests in flight, and a schedule: the list of the requests' indexes in the order in
  which they take their steps.
\<close>

fun stepThread :: "db \<times> (bookReq \<times> bookPc) list \<Rightarrow> nat \<Rightarrow> db \<times> (bookReq \<times> bookPc) list" where
  "stepThread (d, ts) k =
     (if k < length ts
      then (case bookStep (fst (ts ! k)) d (snd (ts ! k)) of
              (d1, pc1) \<Rightarrow> (d1, ts[k := (fst (ts ! k), pc1)]))
      else (d, ts))"

definition runSchedule ::
  "nat list \<Rightarrow> db \<times> (bookReq \<times> bookPc) list \<Rightarrow> db \<times> (bookReq \<times> bookPc) list" where
  "runSchedule sched c = foldl stepThread c sched"

section \<open>Notions of the specification\<close>

text \<open>
  The specification's intersection of two half-open intervals:
  \<open>a.start < b.end AND b.start < a.end\<close>.
\<close>

definition spec_intersects :: "slot \<Rightarrow> slot \<Rightarrow> bool" where
  "spec_intersects a b = (startAt a < endAt b \<and> startAt b < endAt a)"

text \<open>
  The specification's \<open>hasOverlap(userId, candidateSlot)\<close>: the user holds a confirmed
  booking whose slot intersects the candidate.
\<close>

definition spec_hasOverlap :: "db \<Rightarrow> oid \<Rightarrow> slot \<Rightarrow> bool" where
  "spec_hasOverlap d u c =
     (\<exists>b \<in> set (bookings d). userId b = u \<and> status b = Confirmed \<and>
        (\<exists>x \<in> set (slots d). slot_id x = slotId b \<and> spec_intersects x c))"

text \<open>Saturday or Sunday, for the number of a UTC day (day 0 is January 1st, 1970).\<close>

definition spec_isWeekend :: "int \<Rightarrow> bool" where
  "spec_isWeekend dayNo = ((dayNo + 4) mod 7 = 0 \<or> (dayNo + 4) mod 7 = 6)"

text \<open>The sixteen thirty-minute slots from 09:00 to 17:00 of a UTC day.\<close>

definition spec_daySlots :: "int \<Rightarrow> (instant \<times> instant) list" where
  "spec_daySlots dayNo =
     map (\<lambda>k. (dayNo * msPerDay + 9 * 3600000 + int k * 1800000,
                dayNo * msPerDay + 9 * 3600000 + int k * 1800000 + 1800000)) [0..<16]"

text \<open>
  The identifiers of the bookings are below the counter, as they are once the store
  has handed them out: an invariant of the operations (\<open>wfIds_execAll\<close> below).
\<close>

definition wfIds :: "db \<Rightarrow> bool" where
  "wfIds d = list_all (\<lambda>b. booking_id b < nextId d) (bookings d)"

text \<open>
  What the operations keep of the store: identifiers below the counter, one slot per
  slot identifier, and a confirmed booking behind every slot flagged as booked.
\<close>

definition storeInv :: "db \<Rightarrow> bool" where
  "storeInv d =
     (wfIds d \<and> list_all (\<lambda>s. slot_id s < nextId d) (slots d)
      \<and> distinct (map slot_id (slots d))
      \<and> list_all (\<lambda>s. if isBooked s then confirmedFor d (slot_id s) \<noteq> [] else True) (slots d))"

section \<open>Example data\<close>

text \<open>
  The slots 09:00 to 09:30, 09:30 to 10:00 and 09:15 to 09:45 of August 25th, 2025
  (UTC), and noon of August 20th, 2025 as the clock reading.
\<close>

definition slot0900 :: slot where
  "slot0900 = \<lparr>slot_id = 0, startAt = 1756112400000, endAt = 1756114200000, isBooked = False\<rparr>"

definition slot0930 :: slot where
  "slot0930 = \<lparr>slot_id = 1, startAt = 1756114200000, endAt = 1756116000000, isBooked = False\<rparr>"

definition slot0915 :: slot where
  "slot0915 = \<lparr>slot_id = 2, startAt = 1756113300000, endAt = 1756115100000, isBooked = False\<rparr>"

definition aug20 :: instant where
  "aug20 = 1755691200000"

text \<open>Noon of Thursday, August 21st, 2025, which is the UTC day 20321.\<close>

definition aug21noon :: instant where
  "aug21noon = 1755777600000"

text \<open>A store with the one free slot, and two patients asking for it.\<close>

definition oneSlotDb :: db where
  "oneSlotDb = \<lparr>slots = [slot0900], bookings = [], nextId = 1\<rparr>"

definition reqA :: bookReq where
  "reqA = \<lparr>rq_user = 10, rq_slotId = Some (ObjectId 0), rq_now = aug20\<rparr>"

definition reqB :: bookReq where
  "reqB = \<lparr>rq_user = 11, rq_slotId = Some (ObjectId 0), rq_now = aug20\<rparr>"

text \<open>
  Patient 10 books the slot and cancels; patient 11 books it; patient 10 cancels the
  same, already cancelled booking once more.
\<close>

definition doubleCancel :: "op list" where
  "doubleCancel =
     [AddSlot (Some (Date 1756112400000)) (Some (Date 1756114200000)),
      BookSlot 10 (Some (ObjectId 0)) aug20,
      CancelBooking \<lparr>user_id = 10, role = Patient\<rparr> (ObjectId 1) aug20,
      BookSlot 11 (Some (ObjectId 0)) aug20,
      CancelBooking \<lparr>user_id = 10, role = Patient\<rparr> (ObjectId 1) aug20]"

definition afterDoubleCancel :: db where
  "afterDoubleCancel =
     \<lparr>slots = [slot0900],
      bookings =
        [\<lparr>booking_id = 1, userId = 10, slotId = 0, status = Cancelled, createdAt = aug20\<rparr>,
         \<lparr>booking_id = 2, userId = 11, slotId = 0, status = Confirmed, createdAt = aug20\<rparr>],
      nextId = 3\<rparr>"

text \<open>Patient 10 holds the slot 09:00 to 09:30; the two other slots are free.\<close>

definition threeSlotDb :: db where
  "threeSlotDb =
     \<lparr>slots = [slot0900\<lparr>isBooked := True\<rparr>, slot0930, slot0915],
      bookings =
        [\<lparr>booking_id = 3, userId = 10, slotId = 0, status = Confirmed, createdAt = aug20\<rparr>],
      nextId = 4\<rparr>"

text \<open>
  Patient 10 holds a cancelled booking of the slot, which patient 11 has booked since.
\<close>

definition rebookedDb :: db where
  "rebookedDb =
     \<lparr>slots = [slot0900\<lparr>isBooked := True\<rparr>],
      bookings =
        [\<lparr>booking_id = 1, userId = 10, slotId = 0, status = Cancelled, createdAt = aug20\<rparr>,
         \<lparr>booking_id = 2, userId = 11, slotId = 0, status = Confirmed, createdAt = aug20\<rparr>],
      nextId = 3\<rparr>"

text \<open>A booking that was marked completed in the store.\<close>

definition completedDb :: db where
  "completedDb =
     \<lparr>slots = [slot0900],
      bookings =
        [\<lparr>booking_id = 1, userId = 10, slotId = 0, status = Completed, createdAt = aug20\<rparr>],
      nextId = 2\<rparr>"

section \<open>Lists and the store\<close>

lemma find_SomeD: "find P xs = Some x \<Longrightarrow> P x \<and> x \<in> set xs"
  by (induction xs) (auto split: if_splits)

lemma find_updFirst_same:
  "find P xs = Some x \<Longrightarrow> P (f x) \<Longrightarrow> find P (updFirst P f xs) = Some (f x)"
  by (induction xs) auto

lemma find_append_fresh:
  "find P xs = None \<Longrightarrow> P x \<Longrightarrow> find P (xs @ [x]) = Some x"
  by (induction xs) (auto split: if_splits)

lemma length_updFirst [simp]: "length (updFirst P f xs) = length xs"
  by (induction xs) auto

lemma nth_updFirst:
  "k < length xs \<Longrightarrow> updFirst P f xs ! k = xs ! k \<or> updFirst P f xs ! k = f (xs ! k)"
  by (induction xs arbitrary: k) (auto simp: nth_Cons split: nat.splits)

lemma list_all_updFirst:
  "list_all P xs \<Longrightarrow> (\<And>x. P x \<Longrightarrow> P (f x)) \<Longrightarrow> list_all P (updFirst Q f xs)"
  by (induction xs) auto

lemma findSlotById_id: "findSlotById d i = Some s \<Longrightarrow> slot_id s = i"
  by (auto simp: findSlotById_def dest: find_SomeD)

lemma findBookingById_id: "findBookingById d i = Some b \<Longrightarrow> booking_id b = i"
  by (auto simp: findBookingById_def dest: find_SomeD)

lemma find_flagSlot:
  "find (\<lambda>s. slot_id s = i) ss = Some s \<Longrightarrow>
   find (\<lambda>s. slot_id s = i) (updFirst (\<lambda>s. slot_id s = i) (\<lambda>s. s\<lparr>isBooked := v\<rparr>) ss)
     = Some (s\<lparr>isBooked := v\<rparr>)"
  by (rule find_updFirst_same) (auto dest: find_SomeD)

lemma findSlotById_nextId [simp]: "findSlotById (d\<lparr>nextId := n\<rparr>) i = findSlotById d i"
  by (simp add: findSlotById_def)

lemma slotId_newBooking [simp]: "slotId (newBooking d u i now) = i"
  by (simp add: newBooking_def)

lemma wfIds_fresh: "wfIds d \<Longrightarrow> nextId d \<notin> set (map booking_id (bookings d))"
  by (auto simp: wfIds_def list_all_iff)

lemma wfIds_find_fresh: "wfIds d \<Longrightarrow> find (\<lambda>b. booking_id b = nextId d) (bookings d) = None"
  by (auto simp: wfIds_def list_all_iff find_None_iff)

section \<open>What a successful booking and a successful cancellation do\<close>

lemma bookSlot_success:
  assumes "wfIds d" and "findSlotById d i = Some s" and "\<not> isBooked s" and "now \<le> startAt s"
    and "findConfirmedBooking d u (overlappingSlotIds d s) = None"
    and "startAt s < endAt s"
  shows "bookSlot d now u (Some (ObjectId i)) =
     (d\<lparr>slots := updFirst (\<lambda>x. slot_id x = i) (\<lambda>x. x\<lparr>isBooked := True\<rparr>) (slots d),
        bookings := bookings d @ [newBooking d u i now], nextId := Suc (nextId d)\<rparr>,
      bookingCreated (newBooking d u i now) s)"
proof -
  have id: "slot_id s = i" using assms(2) by (rule findSlotById_id)
  have fresh: "nextId d \<notin> booking_id ` set (bookings d)"
    using wfIds_fresh[OF assms(1)] by simp
  have hook: "bookingPreSave (d\<lparr>nextId := Suc (nextId d)\<rparr>) (newBooking d u i now)
      = (d\<lparr>nextId := Suc (nextId d),
            slots := updFirst (\<lambda>x. slot_id x = i) (\<lambda>x. x\<lparr>isBooked := True\<rparr>) (slots d)\<rparr>, None)"
    using assms(2,3,6) id
    by (simp add: bookingPreSave_def saveSlotBooked_def slotPreSave_def findSlotById_def
        newBooking_def)
  have save: "saveNewBooking (d\<lparr>nextId := Suc (nextId d)\<rparr>) (newBooking d u i now)
      = (d\<lparr>slots := updFirst (\<lambda>x. slot_id x = i) (\<lambda>x. x\<lparr>isBooked := True\<rparr>) (slots d),
            bookings := bookings d @ [newBooking d u i now], nextId := Suc (nextId d)\<rparr>, None)"
    using fresh by (simp add: saveNewBooking_def hook insertBooking_def) (simp add: newBooking_def)
  show ?thesis
    using assms(2-5) by (simp add: bookSlot_def save)
qed

lemma bookSlot_SuccessD:
  assumes "bookSlot d now u sid = (d1, Success c v)"
  shows "\<exists>i s. sid = Some (ObjectId i) \<and> findSlotById d i = Some s \<and> \<not> isBooked s
           \<and> now \<le> startAt s \<and> findConfirmedBooking d u (overlappingSlotIds d s) = None
           \<and> startAt s < endAt s"
  using assms
  by (auto simp: bookSlot_def bookSlotCatch_def saveNewBooking_def bookingPreSave_def
      saveSlotBooked_def slotPreSave_def
      split: option.splits reqId.splits if_splits prod.splits)

lemma cancelBooking_SuccessD:
  assumes "cancelBooking d now usr bid = (d1, Success c r)"
  shows "\<exists>i b s. bid = ObjectId i \<and> findBookingById d i = Some b
           \<and> (userId b = user_id usr \<or> role usr = Admin)
           \<and> findSlotById d (slotId b) = Some s \<and> now \<le> startAt s"
  using assms
  by (auto simp: cancelBooking_def split: option.splits reqId.splits if_splits prod.splits)

lemma cancelBooking_success:
  assumes "findBookingById d i = Some b"
    and "userId b = user_id usr \<or> role usr = Admin"
    and "findSlotById d (slotId b) = Some s"
    and "now \<le> startAt s"
  shows "cancelBooking d now usr (ObjectId i) =
     (d\<lparr>bookings := updFirst (\<lambda>x. booking_id x = i) (\<lambda>x. x\<lparr>status := Cancelled\<rparr>) (bookings d),
        slots := updFirst (\<lambda>x. slot_id x = slotId b) (\<lambda>x. x\<lparr>isBooked := False\<rparr>) (slots d)\<rparr>,
      Success 200 (i, Cancelled))"
proof -
  have bi: "booking_id b = i" using assms(1) by (rule findBookingById_id)
  have 1: "findSlotById (saveBookingStatus d i Cancelled) (slotId b) = Some s"
    using assms(3) by (simp add: findSlotById_def saveBookingStatus_def)
  show ?thesis
    using assms bi
    by (auto simp: cancelBooking_def findSlotByIdAndUpdate_def 1)
       (simp_all add: saveBookingStatus_def)
qed

lemma findConfirmedBooking_iff:
  "(findConfirmedBooking d u (overlappingSlotIds d c) \<noteq> None) = spec_hasOverlap d u c"
  unfolding findConfirmedBooking_def overlappingSlotIds_def spec_hasOverlap_def
    spec_intersects_def find_None_iff
  by (auto simp: image_iff) (metis+)

lemma bookSlotCatch_not_overlap: "bookSlotCatch e \<noteq> Failure 409 ''OVERLAPPING_BOOKING''"
  by (simp add: bookSlotCatch_def)

section \<open>The bookings under each operation\<close>

lemma bookings_foldl_insertSlot [simp]: "bookings (foldl insertSlot d ps) = bookings d"
  by (induction ps arbitrary: d) (auto simp: insertSlot_def)

lemma bookings_generateSlots: "bookings (fst (generateSlots tz d now n)) = bookings d"
  by (simp add: generateSlots_def Let_def split: option.splits jsNumber.splits)

lemma bookings_addSlot: "bookings (fst (addSlot d s e)) = bookings d"
  by (auto simp: addSlot_def insertSlot_def split: option.splits jsDate.splits)

lemma bookings_removeSlot: "bookings (fst (removeSlot d sid)) = bookings d"
  by (auto simp: removeSlot_def split: option.splits reqId.splits)

lemma bookings_saveNewBooking:
  "bookings (fst (saveNewBooking d b)) = bookings d
   \<or> bookings (fst (saveNewBooking d b)) = bookings d @ [b]"
  by (auto simp: saveNewBooking_def bookingPreSave_def saveSlotBooked_def insertBooking_def
      split: option.splits prod.splits if_splits)

lemma bookings_bookSlot:
  "bookings (fst (bookSlot d now u sid)) = bookings d
   \<or> (\<exists>b. bookings (fst (bookSlot d now u sid)) = bookings d @ [b])"
  using bookings_saveNewBooking[of "d\<lparr>nextId := Suc (nextId d)\<rparr>"]
  by (auto simp: bookSlot_def split: option.splits reqId.splits prod.splits) (metis fst_conv)+

lemma bookings_cancelBooking:
  "bookings (fst (cancelBooking d now usr bid)) = bookings d
   \<or> (\<exists>i. bookings (fst (cancelBooking d now usr bid))
        = updFirst (\<lambda>b. booking_id b = i) (\<lambda>b. b\<lparr>status := Cancelled\<rparr>) (bookings d))"
  by (auto simp: cancelBooking_def findSlotByIdAndUpdate_def saveBookingStatus_def
      split: option.splits reqId.splits prod.splits)

section \<open>The identifiers stay below the counter\<close>

lemma wfIds_emptyDb: "wfIds emptyDb"
  by (simp add: wfIds_def emptyDb_def)

lemma nextId_foldl_insertSlot: "nextId d \<le> nextId (foldl insertSlot d ps)"
proof (induction ps arbitrary: d)
  case Nil
  then show ?case by simp
next
  case (Cons p ps)
  have "nextId d \<le> nextId (insertSlot d p)" by (simp add: insertSlot_def)
  also have "\<dots> \<le> nextId (foldl insertSlot (insertSlot d p) ps)" by (rule Cons.IH)
  finally show ?case by simp
qed

lemma wfIds_mono:
  "wfIds d \<Longrightarrow> bookings d' = bookings d \<Longrightarrow> nextId d \<le> nextId d' \<Longrightarrow> wfIds d'"
  by (auto simp: wfIds_def list_all_iff)

lemma wfIds_generateSlots: "wfIds d \<Longrightarrow> wfIds (fst (generateSlots tz d now n))"
  by (rule wfIds_mono[where d = d])
     (auto simp: generateSlots_def Let_def nextId_foldl_insertSlot
        split: option.splits jsNumber.splits)

lemma wfIds_addSlot: "wfIds d \<Longrightarrow> wfIds (fst (addSlot d s e))"
  by (rule wfIds_mono[where d = d])
     (auto simp: addSlot_def insertSlot_def split: option.splits jsDate.splits)

lemma wfIds_removeSlot: "wfIds d \<Longrightarrow> wfIds (fst (removeSlot d sid))"
  by (rule wfIds_mono[where d = d]) (auto simp: removeSlot_def split: option.splits reqId.splits)

lemma wfIds_cancelBooking: "wfIds d \<Longrightarrow> wfIds (fst (cancelBooking d now usr bid))"
  by (auto simp: cancelBooking_def findSlotByIdAndUpdate_def saveBookingStatus_def wfIds_def
      list_all_updFirst split: option.splits reqId.splits)

lemma wfIds_saveNewBooking:
  "list_all (\<lambda>x. booking_id x < nextId d) (bookings d) \<Longrightarrow> booking_id b < nextId d \<Longrightarrow>
   wfIds (fst (saveNewBooking d b))"
  by (auto simp: saveNewBooking_def bookingPreSave_def saveSlotBooked_def insertBooking_def
      wfIds_def split: option.splits prod.splits if_splits)

lemma wfIds_bookSlot:
  assumes "wfIds d"
  shows "wfIds (fst (bookSlot d now u sid))"
proof -
  have "wfIds (fst (saveNewBooking (d\<lparr>nextId := Suc (nextId d)\<rparr>) (newBooking d u i now)))" for i
    using assms by (intro wfIds_saveNewBooking) (auto simp: wfIds_def list_all_iff newBooking_def)
  then show ?thesis
    using assms
    by (auto simp: bookSlot_def split: option.splits reqId.splits prod.splits) (metis fst_conv)+
qed

lemma wfIds_exec: "wfIds d \<Longrightarrow> wfIds (exec tz d op)"
  by (cases op)
     (simp_all add: wfIds_bookSlot wfIds_cancelBooking wfIds_addSlot wfIds_removeSlot
        wfIds_generateSlots)

lemma wfIds_execAll: "wfIds d \<Longrightarrow> wfIds (execAll tz d ops)"
  unfolding execAll_def by (induction ops arbitrary: d) (simp_all add: wfIds_exec)

section \<open>The flag of a slot and its confirmed bookings\<close>

lemma storeInv_emptyDb: "storeInv emptyDb"
  by (simp add: storeInv_def wfIds_def emptyDb_def)

lemma storeInv_insertSlot: "storeInv d \<Longrightarrow> storeInv (insertSlot d p)"
  by (auto simp: storeInv_def insertSlot_def wfIds_def confirmedFor_def list_all_iff split: if_splits)

lemma storeInv_foldl_insertSlot: "storeInv d \<Longrightarrow> storeInv (foldl insertSlot d ps)"
  by (induction ps arbitrary: d) (simp_all add: storeInv_insertSlot)

lemma storeInv_nextId: "storeInv d \<Longrightarrow> storeInv (d\<lparr>nextId := Suc (nextId d)\<rparr>)"
  by (auto simp: storeInv_def wfIds_def confirmedFor_def list_all_iff)

lemma storeInv_generateSlots: "storeInv d \<Longrightarrow> storeInv (fst (generateSlots tz d now n))"
  by (simp add: generateSlots_def Let_def storeInv_foldl_insertSlot
      split: option.splits jsNumber.splits)

lemma storeInv_addSlot: "storeInv d \<Longrightarrow> storeInv (fst (addSlot d s e))"
  by (auto simp: addSlot_def storeInv_insertSlot storeInv_nextId split: option.splits jsDate.splits)

lemma set_delFirst: "set (delFirst P xs) \<subseteq> set xs"
  by (induction xs) auto

lemma distinct_map_delFirst: "distinct (map f xs) \<Longrightarrow> distinct (map f (delFirst P xs))"
  using set_delFirst[of P] by (induction xs) (auto simp: image_iff)

lemma storeInv_fewer_slots:
  assumes "storeInv d" and "set ss \<subseteq> set (slots d)" and "distinct (map slot_id ss)"
  shows "storeInv (d\<lparr>slots := ss\<rparr>)"
proof -
  have "confirmedFor (d\<lparr>slots := ss\<rparr>) = confirmedFor d"
    by (simp add: confirmedFor_def fun_eq_iff)
  then show ?thesis
    using assms by (auto simp: storeInv_def wfIds_def list_all_iff)
qed

lemma storeInv_removeSlot:
  assumes "storeInv d"
  shows "storeInv (fst (removeSlot d sid))"
proof -
  have "fst (removeSlot d sid) = d
      \<or> (\<exists>i. fst (removeSlot d sid) = d\<lparr>slots := delFirst (\<lambda>x. slot_id x = i) (slots d)\<rparr>)"
    by (auto simp: removeSlot_def split: option.splits reqId.splits)
  moreover have "storeInv (d\<lparr>slots := delFirst (\<lambda>x. slot_id x = i) (slots d)\<rparr>)" for i
    using assms
    by (intro storeInv_fewer_slots set_delFirst distinct_map_delFirst) (simp_all add: storeInv_def)
  ultimately show ?thesis
    using assms by auto
qed

lemma findSlotById_saveBookingStatus [simp]:
  "findSlotById (saveBookingStatus d i v) j = findSlotById d j"
  by (simp add: findSlotById_def saveBookingStatus_def)

lemma filter_updFirst_other:
  "find P xs = Some b \<Longrightarrow> \<not> Q b \<Longrightarrow> \<not> Q (f b) \<Longrightarrow> filter Q (updFirst P f xs) = filter Q xs"
  by (induction xs) (auto split: if_splits)

lemma set_flagged:
  assumes "distinct (map slot_id ss)"
    and "s \<in> set (updFirst (\<lambda>x. slot_id x = i) (\<lambda>x. x\<lparr>isBooked := v\<rparr>) ss)"
  shows "(slot_id s = i \<and> isBooked s = v) \<or> (slot_id s \<noteq> i \<and> s \<in> set ss)"
  using assms by (induction ss) (auto split: if_splits simp: image_iff)

lemma map_slot_id_flag [simp]:
  "map slot_id (updFirst P (\<lambda>x. x\<lparr>isBooked := v\<rparr>) ss) = map slot_id ss"
  by (induction ss) auto

lemma slot_ids_flagged:
  "list_all (\<lambda>s. slot_id s < n) ss \<Longrightarrow>
   list_all (\<lambda>s. slot_id s < n) (updFirst P (\<lambda>x. x\<lparr>isBooked := v\<rparr>) ss)"
  by (rule list_all_updFirst) simp_all

lemma storeInv_cancelBooking:
  assumes "storeInv d"
  shows "storeInv (fst (cancelBooking d now usr bid))"
proof (cases "\<exists>c r. snd (cancelBooking d now usr bid) = Success c r")
  case False
  then have "fst (cancelBooking d now usr bid) = d"
    by (auto simp: cancelBooking_def findSlotByIdAndUpdate_def
        split: option.splits reqId.splits if_splits)
  with assms show ?thesis by simp
next
  case True
  then obtain d1 c r where run: "cancelBooking d now usr bid = (d1, Success c r)"
    by (metis prod.collapse)
  from cancelBooking_SuccessD[OF run] obtain i b s where
    h: "bid = ObjectId i" "findBookingById d i = Some b"
       "userId b = user_id usr \<or> role usr = Admin"
       "findSlotById d (slotId b) = Some s" "now \<le> startAt s"
    by blast
  let ?bs = "updFirst (\<lambda>x. booking_id x = i) (\<lambda>x. x\<lparr>status := Cancelled\<rparr>) (bookings d)"
  let ?ss = "updFirst (\<lambda>x. slot_id x = slotId b) (\<lambda>x. x\<lparr>isBooked := False\<rparr>) (slots d)"
  let ?d' = "d\<lparr>bookings := ?bs, slots := ?ss\<rparr>"
  have d1: "fst (cancelBooking d now usr bid) = ?d'"
    using cancelBooking_success[OF h(2-5)] h(1) by simp
  have fb: "find (\<lambda>x. booking_id x = i) (bookings d) = Some b"
    using h(2) by (simp add: findBookingById_def)
  have keep: "confirmedFor ?d' j = confirmedFor d j" if "j \<noteq> slotId b" for j
    unfolding confirmedFor_def using that
    by (simp add: filter_updFirst_other[OF fb])
  have dist: "distinct (map slot_id (slots d))"
    and backed: "\<And>x. x \<in> set (slots d) \<Longrightarrow> isBooked x \<Longrightarrow> confirmedFor d (slot_id x) \<noteq> []"
    using assms by (auto simp: storeInv_def list_all_iff)
  have "if isBooked x then confirmedFor ?d' (slot_id x) \<noteq> [] else True" if "x \<in> set ?ss" for x
    using set_flagged[OF dist that] keep backed by auto
  then have 4: "list_all (\<lambda>s. if isBooked s then confirmedFor ?d' (slot_id s) \<noteq> [] else True) (slots ?d')"
    by (simp add: list_all_iff)
  have 1: "wfIds ?d'"
    using assms by (simp add: storeInv_def wfIds_def list_all_updFirst)
  have 2: "list_all (\<lambda>s. slot_id s < nextId ?d') (slots ?d')"
    using assms by (simp add: storeInv_def slot_ids_flagged)
  have 3: "distinct (map slot_id (slots ?d'))"
    using dist by simp
  show ?thesis
    unfolding d1 storeInv_def using 1 2 3 4 by blast
qed

lemma storeInv_bookSlot:
  assumes "storeInv d"
  shows "storeInv (fst (bookSlot d now u sid))"
proof (cases "\<exists>c v. snd (bookSlot d now u sid) = Success c v")
  case True
  then obtain d1 c v where run: "bookSlot d now u sid = (d1, Success c v)"
    by (metis prod.collapse)
  from bookSlot_SuccessD[OF run] obtain i s where
    h: "sid = Some (ObjectId i)" "findSlotById d i = Some s" "\<not> isBooked s" "now \<le> startAt s"
       "findConfirmedBooking d u (overlappingSlotIds d s) = None" "startAt s < endAt s"
    by blast
  have wf: "wfIds d" using assms by (simp add: storeInv_def)
  let ?b = "newBooking d u i now"
  let ?ss = "updFirst (\<lambda>x. slot_id x = i) (\<lambda>x. x\<lparr>isBooked := True\<rparr>) (slots d)"
  let ?d' = "d\<lparr>slots := ?ss, bookings := bookings d @ [?b], nextId := Suc (nextId d)\<rparr>"
  have d1: "fst (bookSlot d now u sid) = ?d'"
    using bookSlot_success[OF wf h(2-6)] h(1) by simp
  have dist: "distinct (map slot_id (slots d))"
    and backed: "\<And>x. x \<in> set (slots d) \<Longrightarrow> isBooked x \<Longrightarrow> confirmedFor d (slot_id x) \<noteq> []"
    using assms by (auto simp: storeInv_def list_all_iff)
  have grow: "confirmedFor d j \<noteq> [] \<Longrightarrow> confirmedFor ?d' j \<noteq> []" for j
    by (simp add: confirmedFor_def)
  have new: "confirmedFor ?d' i \<noteq> []"
    by (simp add: confirmedFor_def newBooking_def)
  have "if isBooked x then confirmedFor ?d' (slot_id x) \<noteq> [] else True" if "x \<in> set ?ss" for x
    using set_flagged[OF dist that] grow new backed by auto
  then have 4: "list_all (\<lambda>s. if isBooked s then confirmedFor ?d' (slot_id s) \<noteq> [] else True) (slots ?d')"
    by (simp add: list_all_iff)
  have 1: "wfIds ?d'"
    using wf by (auto simp: wfIds_def list_all_iff newBooking_def)
  have "list_all (\<lambda>s. slot_id s < Suc (nextId d)) (slots d)"
    using assms by (auto simp: storeInv_def list_all_iff)
  then have 2: "list_all (\<lambda>s. slot_id s < nextId ?d') (slots ?d')"
    by (simp add: slot_ids_flagged)
  have 3: "distinct (map slot_id (slots ?d'))"
    using dist by simp
  show ?thesis
    unfolding d1 storeInv_def using 1 2 3 4 by blast
next
  case False
  have fresh: "nextId d \<notin> booking_id ` set (bookings d)"
    using assms wfIds_fresh[of d] by (simp add: storeInv_def)
  have "fst (bookSlot d now u sid) = d \<or> fst (bookSlot d now u sid) = d\<lparr>nextId := Suc (nextId d)\<rparr>"
    using False fresh
    by (auto simp: bookSlot_def saveNewBooking_def bookingPreSave_def saveSlotBooked_def
        insertBooking_def bookingCreated_def newBooking_def findSlotById_def
        split: option.splits reqId.splits if_splits prod.splits)
  with assms show ?thesis
    by (auto simp: storeInv_nextId)
qed

lemma storeInv_exec: "storeInv d \<Longrightarrow> storeInv (exec tz d op)"
  by (cases op)
     (simp_all add: storeInv_bookSlot storeInv_cancelBooking storeInv_addSlot storeInv_removeSlot
        storeInv_generateSlots)

lemma storeInv_execAll: "storeInv d \<Longrightarrow> storeInv (execAll tz d ops)"
  unfolding execAll_def by (induction ops arbitrary: d) (simp_all add: storeInv_exec)

text \<open>
  In every store the operations reach from the empty one, a slot flagged as booked has a
  confirmed booking.
\<close>

lemma flag_backed_by_confirmed:
  assumes "s \<in> set (slots (execAll tz emptyDb ops))" and "isBooked s"
  shows "confirmedFor (execAll tz emptyDb ops) (slot_id s) \<noteq> []"
  using storeInv_execAll[OF storeInv_emptyDb, of tz ops] assms
  by (auto simp: storeInv_def list_all_iff)

text \<open>
  Requests that run one after the other: once a booking of a slot has succeeded, the
  next request for the slot is turned away with the conflict \<open>SLOT_TAKEN\<close>.
\<close>

lemma bookSlot_after_success:
  assumes "wfIds d" and "bookSlot d now u (Some (ObjectId i)) = (d1, Success 201 v)"
  shows "bookSlot d1 now' u' (Some (ObjectId i)) = (d1, Failure 409 ''SLOT_TAKEN'')"
proof -
  from bookSlot_SuccessD[OF assms(2)] obtain s where
    s: "findSlotById d i = Some s" "\<not> isBooked s" "now \<le> startAt s"
       "findConfirmedBooking d u (overlappingSlotIds d s) = None" "startAt s < endAt s"
    by auto
  from bookSlot_success[OF assms(1) s] assms(2)
  have "slots d1 = updFirst (\<lambda>x. slot_id x = i) (\<lambda>x. x\<lparr>isBooked := True\<rparr>) (slots d)"
    by auto
  then have "findSlotById d1 i = Some (s\<lparr>isBooked := True\<rparr>)"
    using s(1) by (simp add: findSlotById_def find_flagSlot)
  then show ?thesis
    by (simp add: bookSlot_def)
qed

section \<open>Booking a slot\<close>

text \<open>
  C3. The claim: a \<open>slotId\<close> that is not a well-formed identifier makes \<open>bookSlot\<close>
  fail with the invalid-slot-id error and change nothing. What the handler does: the
  validation result is never read, \<open>Slot.findById\<close> rejects with a \<open>CastError\<close>, and
  the \<open>catch\<close> block answers 500 \<open>BOOKING_ERROR\<close>. The store is left as it was.
\<close>

theorem bookSlot_malformed_id:
  "bookSlot d now u (Some NotObjectId) = (d, Failure 500 ''BOOKING_ERROR'')"
  by (simp add: bookSlot_def bookSlotCatch_def)

text \<open>
  C4. The claim: for every user and candidate slot, \<open>bookSlot\<close> fails with
  \<open>OVERLAPPING_BOOKING\<close> if and only if the user holds a confirmed booking whose slot
  intersects the candidate. The handler looks for an overlap last: patient 10, who holds
  the slot 09:00 to 09:30, asks for the free slot 09:15 to 09:45 one millisecond after
  it started and is answered \<open>PAST_SLOT\<close>, and asks again for the slot already held
  and is answered \<open>SLOT_TAKEN\<close>; in both cases the patient holds a confirmed booking
  whose slot intersects the candidate.
\<close>

theorem overlap_after_other_checks:
  "spec_hasOverlap threeSlotDb 10 slot0915
   \<and> findSlotById threeSlotDb 2 = Some slot0915
   \<and> snd (bookSlot threeSlotDb (startAt slot0915 + 1) 10 (Some (ObjectId 2)))
       = Failure 400 ''PAST_SLOT''
   \<and> spec_hasOverlap threeSlotDb 10 (slot0900\<lparr>isBooked := True\<rparr>)
   \<and> findSlotById threeSlotDb 0 = Some (slot0900\<lparr>isBooked := True\<rparr>)
   \<and> snd (bookSlot threeSlotDb aug20 10 (Some (ObjectId 0))) = Failure 409 ''SLOT_TAKEN''"
  by (simp add: spec_hasOverlap_def spec_intersects_def threeSlotDb_def slot0900_def
      slot0930_def slot0915_def aug20_def bookSlot_def findSlotById_def)

text \<open>
  C4, amended. For a candidate slot that reaches the overlap check (it exists, is not
  flagged as booked and does not start in the past), \<open>bookSlot\<close> fails with
  \<open>OVERLAPPING_BOOKING\<close> if and only if the user holds a confirmed booking whose slot
  intersects the candidate, intervals being half-open; in particular it is not rejected
  for overlap when every slot the user holds ends by the candidate's start or starts at
  or after the candidate's end.
\<close>

theorem bookSlot_overlap_iff:
  assumes "findSlotById d i = Some c" and "\<not> isBooked c" and "now \<le> startAt c"
  shows "((snd (bookSlot d now u (Some (ObjectId i))) = Failure 409 ''OVERLAPPING_BOOKING'')
            = spec_hasOverlap d u c)
       \<and> ((\<forall>b \<in> set (bookings d). userId b = u \<and> status b = Confirmed \<longrightarrow>
              (\<forall>x \<in> set (slots d). slot_id x = slotId b \<longrightarrow>
                 endAt x \<le> startAt c \<or> endAt c \<le> startAt x))
            \<longrightarrow> snd (bookSlot d now u (Some (ObjectId i))) \<noteq> Failure 409 ''OVERLAPPING_BOOKING'')"
proof -
  have iff: "(snd (bookSlot d now u (Some (ObjectId i))) = Failure 409 ''OVERLAPPING_BOOKING'')
      = spec_hasOverlap d u c"
  proof (cases "findConfirmedBooking d u (overlappingSlotIds d c)")
    case None
    then have "\<not> spec_hasOverlap d u c"
      using findConfirmedBooking_iff[of d u c] by simp
    moreover have "snd (bookSlot d now u (Some (ObjectId i))) \<noteq> Failure 409 ''OVERLAPPING_BOOKING''"
      using assms None
      by (simp add: bookSlot_def bookSlotCatch_not_overlap bookingCreated_def
          split: prod.splits option.splits)
    ultimately show ?thesis by simp
  next
    case (Some b)
    then have "spec_hasOverlap d u c"
      using findConfirmedBooking_iff[of d u c] by simp
    moreover have "snd (bookSlot d now u (Some (ObjectId i))) = Failure 409 ''OVERLAPPING_BOOKING''"
      using assms Some by (simp add: bookSlot_def)
    ultimately show ?thesis by simp
  qed
  have "\<not> spec_hasOverlap d u c"
    if "\<forall>b \<in> set (bookings d). userId b = u \<and> status b = Confirmed \<longrightarrow>
          (\<forall>x \<in> set (slots d). slot_id x = slotId b \<longrightarrow>
             endAt x \<le> startAt c \<or> endAt c \<le> startAt x)"
    using that unfolding spec_hasOverlap_def spec_intersects_def by fastforce
  with iff show ?thesis by simp
qed

theorem bookSlot_overlap_iff_witness:
  "snd (bookSlot threeSlotDb aug20 10 (Some (ObjectId 2))) = Failure 409 ''OVERLAPPING_BOOKING''
   \<and> snd (bookSlot threeSlotDb aug20 10 (Some (ObjectId 1))) \<noteq> Failure 409 ''OVERLAPPING_BOOKING''"
proof -
  have f2: "findSlotById threeSlotDb 2 = Some slot0915"
    and f1: "findSlotById threeSlotDb 1 = Some slot0930"
    by (simp_all add: findSlotById_def threeSlotDb_def slot0900_def slot0930_def slot0915_def)
  have free: "\<not> isBooked slot0915" "\<not> isBooked slot0930"
    by (simp_all add: slot0915_def slot0930_def)
  have future: "aug20 \<le> startAt slot0915" "aug20 \<le> startAt slot0930"
    by (simp_all add: slot0915_def slot0930_def aug20_def)
  have o2: "spec_hasOverlap threeSlotDb 10 slot0915"
    by (simp add: spec_hasOverlap_def spec_intersects_def threeSlotDb_def slot0900_def
        slot0930_def slot0915_def)
  have o1: "\<not> spec_hasOverlap threeSlotDb 10 slot0930"
    by (simp add: spec_hasOverlap_def spec_intersects_def threeSlotDb_def slot0900_def
        slot0930_def slot0915_def)
  show ?thesis
    using bookSlot_overlap_iff[OF f2 free(1) future(1), of 10]
      bookSlot_overlap_iff[OF f1 free(2) future(2), of 10] o1 o2
    by simp
qed

text \<open>
  C5. In a store whose identifiers are below the counter, let \<open>bookSlot\<close> succeed for
  a user on the slot \<open>s\<close>, and let the cancellation of the booking it created succeed.
  Then the slot is found with \<open>isBooked\<close> false, and a later \<open>bookSlot\<close> of the same
  slot by a user with no overlapping confirmed booking, before the slot starts,
  succeeds with a confirmed booking of that slot.
\<close>

theorem book_cancel_rebook:
  assumes wf: "wfIds d"
    and slot: "findSlotById d i = Some s"
    and book: "bookSlot d now1 u1 (Some (ObjectId i)) = (d1, Success 201 v)"
    and cancel: "cancelBooking d1 now2 usr (ObjectId (bv_id v)) = (d2, Success 200 r)"
    and future: "now3 \<le> startAt s"
    and free: "\<not> spec_hasOverlap d2 u2 s"
  shows "(\<exists>s'. findSlotById d2 i = Some s' \<and> isBooked s' = False)
       \<and> (\<exists>d3 v'. bookSlot d2 now3 u2 (Some (ObjectId i)) = (d3, Success 201 v')
             \<and> bv_slot v' = i \<and> bv_status v' = Confirmed)"
proof -
  from bookSlot_SuccessD[OF book] slot have
    s: "\<not> isBooked s" "now1 \<le> startAt s"
       "findConfirmedBooking d u1 (overlappingSlotIds d s) = None" "startAt s < endAt s"
    by auto
  have id: "slot_id s = i" using slot by (rule findSlotById_id)
  let ?b = "newBooking d u1 i now1"
  let ?d1 = "d\<lparr>slots := updFirst (\<lambda>x. slot_id x = i) (\<lambda>x. x\<lparr>isBooked := True\<rparr>) (slots d),
        bookings := bookings d @ [?b], nextId := Suc (nextId d)\<rparr>"
  have "bookSlot d now1 u1 (Some (ObjectId i)) = (?d1, bookingCreated ?b s)"
    using wf slot s by (rule bookSlot_success)
  with book have d1: "d1 = ?d1" and v: "bv_id v = nextId d"
    by (auto simp: bookingCreated_def newBooking_def)
  have fb: "findBookingById d1 (nextId d) = Some ?b"
    unfolding d1 findBookingById_def
    using find_append_fresh[OF wfIds_find_fresh[OF wf], of ?b] by (simp add: newBooking_def)
  have fs: "findSlotById d1 i = Some (s\<lparr>isBooked := True\<rparr>)"
    unfolding d1 findSlotById_def using slot by (simp add: findSlotById_def find_flagSlot)
  from cancelBooking_SuccessD[OF cancel] fb fs v
  have auth: "userId ?b = user_id usr \<or> role usr = Admin" and t2: "now2 \<le> startAt s"
    by (auto simp: newBooking_def)
  have sl: "slotId ?b = i" by (simp add: newBooking_def)
  let ?d2 = "d1\<lparr>bookings := updFirst (\<lambda>x. booking_id x = nextId d)
                               (\<lambda>x. x\<lparr>status := Cancelled\<rparr>) (bookings d1),
        slots := updFirst (\<lambda>x. slot_id x = i) (\<lambda>x. x\<lparr>isBooked := False\<rparr>) (slots d1)\<rparr>"
  have "cancelBooking d1 now2 usr (ObjectId (nextId d)) = (?d2, Success 200 (nextId d, Cancelled))"
    using cancelBooking_success[OF fb auth, of "s\<lparr>isBooked := True\<rparr>" now2] fs t2 sl by simp
  with cancel v have d2: "d2 = ?d2" by simp
  have "find (\<lambda>x. slot_id x = i) (slots d1) = Some (s\<lparr>isBooked := True\<rparr>)"
    using fs by (simp add: findSlotById_def)
  from find_flagSlot[OF this, of False]
  have fs2: "findSlotById d2 i = Some (s\<lparr>isBooked := False\<rparr>)"
    unfolding d2 findSlotById_def by simp
  have unflagged: "s\<lparr>isBooked := False\<rparr> = s"
    using s(1) by simp
  have "list_all (\<lambda>b. booking_id b < Suc (nextId d)) (bookings d @ [?b])"
    using wf by (auto simp: wfIds_def list_all_iff newBooking_def)
  then have wf2: "wfIds d2"
    unfolding d2 d1 wfIds_def by (simp add: list_all_updFirst)
  have "findConfirmedBooking d2 u2 (overlappingSlotIds d2 s) = None"
    using free findConfirmedBooking_iff[of d2 u2 s] by simp
  from bookSlot_success[OF wf2 fs2[unfolded unflagged] s(1) future this s(4)]
  have "\<exists>d3 v'. bookSlot d2 now3 u2 (Some (ObjectId i)) = (d3, Success 201 v')
          \<and> bv_slot v' = i \<and> bv_status v' = Confirmed"
    by (simp add: bookingCreated_def newBooking_def id)
  with fs2 show ?thesis by simp
qed

theorem book_cancel_rebook_witness:
  "(\<exists>s'. findSlotById (oneSlotDb\<lparr>bookings :=
              [\<lparr>booking_id = 1, userId = 10, slotId = 0, status = Cancelled, createdAt = aug20\<rparr>],
              nextId := 2\<rparr>) 0 = Some s' \<and> isBooked s' = False)
   \<and> (\<exists>d3 v'. bookSlot (oneSlotDb\<lparr>bookings :=
              [\<lparr>booking_id = 1, userId = 10, slotId = 0, status = Cancelled, createdAt = aug20\<rparr>],
              nextId := 2\<rparr>) aug20 11 (Some (ObjectId 0)) = (d3, Success 201 v')
         \<and> bv_slot v' = 0 \<and> bv_status v' = Confirmed)"
proof -
  let ?b = "\<lparr>booking_id = 1, userId = 10, slotId = 0, status = Confirmed, createdAt = aug20\<rparr>"
  let ?d1 = "\<lparr>slots = [slot0900\<lparr>isBooked := True\<rparr>], bookings = [?b], nextId = 2\<rparr>"
  let ?v = "\<lparr>bv_id = 1, bv_slot = 0, bv_startAt = 1756112400000, bv_endAt = 1756114200000,
             bv_status = Confirmed, bv_createdAt = aug20\<rparr>"
  let ?d2 = "oneSlotDb\<lparr>bookings := [?b\<lparr>status := Cancelled\<rparr>], nextId := 2\<rparr>"
  have wf: "wfIds oneSlotDb"
    by (simp add: wfIds_def oneSlotDb_def)
  have slot: "findSlotById oneSlotDb 0 = Some slot0900"
    by (simp add: findSlotById_def oneSlotDb_def slot0900_def)
  have book: "bookSlot oneSlotDb aug20 10 (Some (ObjectId 0)) = (?d1, Success 201 ?v)"
    by (simp add: bookSlot_def findSlotById_def oneSlotDb_def slot0900_def aug20_def
        findConfirmedBooking_def saveNewBooking_def bookingPreSave_def saveSlotBooked_def slotPreSave_def
        insertBooking_def newBooking_def bookingCreated_def)
  have cancel: "cancelBooking ?d1 aug20 \<lparr>user_id = 10, role = Patient\<rparr> (ObjectId (bv_id ?v))
      = (?d2, Success 200 (1, Cancelled))"
    by (simp add: cancelBooking_def findBookingById_def findSlotById_def slot0900_def aug20_def
        findSlotByIdAndUpdate_def saveBookingStatus_def oneSlotDb_def)
  have future: "aug20 \<le> startAt slot0900"
    by (simp add: slot0900_def aug20_def)
  have free: "\<not> spec_hasOverlap ?d2 11 slot0900"
    by (simp add: spec_hasOverlap_def oneSlotDb_def)
  show ?thesis
    using book_cancel_rebook[OF wf slot book cancel future free] by simp
qed

section \<open>Cancelling a booking\<close>

text \<open>
  C10. \<open>cancelBooking\<close> never looks at the status of the booking. Whatever the status
  (confirmed, cancelled or completed), when the requester owns the booking or is an
  admin and the slot has not started, the call succeeds, reports the status cancelled,
  leaves the slot with \<open>isBooked\<close> false, and touches no other booking: a confirmed
  booking that another user holds on the same slot stays confirmed.
\<close>

theorem cancel_no_status_precondition:
  assumes "findBookingById d i = Some b"
    and "userId b = user_id usr \<or> role usr = Admin"
    and "findSlotById d (slotId b) = Some s"
    and "now \<le> startAt s"
  shows "\<exists>d'. cancelBooking d now usr (ObjectId i) = (d', Success 200 (i, Cancelled))
       \<and> findSlotById d' (slotId b) = Some (s\<lparr>isBooked := False\<rparr>)
       \<and> findBookingById d' i = Some (b\<lparr>status := Cancelled\<rparr>)
       \<and> bookings d' = updFirst (\<lambda>x. booking_id x = i) (\<lambda>x. x\<lparr>status := Cancelled\<rparr>) (bookings d)
       \<and> (\<forall>x \<in> set (bookings d). booking_id x \<noteq> i \<longrightarrow> x \<in> set (bookings d'))"
proof -
  let ?bs = "updFirst (\<lambda>x. booking_id x = i) (\<lambda>x. x\<lparr>status := Cancelled\<rparr>) (bookings d)"
  let ?d' = "d\<lparr>bookings := ?bs,
        slots := updFirst (\<lambda>x. slot_id x = slotId b) (\<lambda>x. x\<lparr>isBooked := False\<rparr>) (slots d)\<rparr>"
  have run: "cancelBooking d now usr (ObjectId i) = (?d', Success 200 (i, Cancelled))"
    using assms by (rule cancelBooking_success)
  have "find (\<lambda>x. slot_id x = slotId b) (slots d) = Some s"
    using assms(3) by (simp add: findSlotById_def)
  then have fs: "findSlotById ?d' (slotId b) = Some (s\<lparr>isBooked := False\<rparr>)"
    by (simp add: findSlotById_def find_flagSlot)
  have "find (\<lambda>x. booking_id x = i) (bookings d) = Some b"
    using assms(1) by (simp add: findBookingById_def)
  then have fb: "findBookingById ?d' i = Some (b\<lparr>status := Cancelled\<rparr>)"
    using findBookingById_id[OF assms(1)]
    by (simp add: findBookingById_def find_updFirst_same)
  have others: "x \<in> set (updFirst P f xs)" if "x \<in> set xs" and "\<not> P x"
    for x :: booking and P f xs
    using that by (induction xs) auto
  show ?thesis
    using run fs fb others[of _ "bookings d" "\<lambda>x. booking_id x = i"] by simp
qed

theorem cancel_no_status_precondition_witness:
  "\<exists>d'. cancelBooking rebookedDb aug20 \<lparr>user_id = 10, role = Patient\<rparr> (ObjectId 1)
           = (d', Success 200 (1, Cancelled))
       \<and> findSlotById d' 0 = Some slot0900
       \<and> bookings d' = bookings rebookedDb
       \<and> \<lparr>booking_id = 2, userId = 11, slotId = 0, status = Confirmed, createdAt = aug20\<rparr>
            \<in> set (bookings d')"
proof -
  let ?b = "\<lparr>booking_id = 1, userId = 10, slotId = 0, status = Cancelled, createdAt = aug20\<rparr>"
  have fb: "findBookingById rebookedDb 1 = Some ?b"
    by (simp add: findBookingById_def rebookedDb_def)
  have auth: "userId ?b = user_id \<lparr>user_id = 10, role = Patient\<rparr>
      \<or> role \<lparr>user_id = 10, role = Patient\<rparr> = Admin"
    by simp
  have fs: "findSlotById rebookedDb (slotId ?b) = Some (slot0900\<lparr>isBooked := True\<rparr>)"
    by (simp add: findSlotById_def rebookedDb_def slot0900_def)
  have future: "aug20 \<le> startAt (slot0900\<lparr>isBooked := True\<rparr>)"
    by (simp add: slot0900_def aug20_def)
  show ?thesis
    using cancel_no_status_precondition[OF fb auth fs future]
    by (auto simp: rebookedDb_def slot0900_def)
qed

text \<open>
  C7. The claim: no core operation changes the status of a cancelled or of a completed
  booking. It fails for a completed booking, which \<open>cancelBooking\<close> turns into a
  cancelled one (the only condition the handler puts on a cancellation is that the
  slot has not started).
\<close>

theorem completed_not_terminal:
  "status (bookings completedDb ! 0) = Completed
   \<and> status (bookings (exec 0 completedDb
               (CancelBooking \<lparr>user_id = 10, role = Patient\<rparr> (ObjectId 1) aug20)) ! 0) = Cancelled"
  by (simp add: completedDb_def cancelBooking_def findBookingById_def findSlotById_def
      slot0900_def aug20_def findSlotByIdAndUpdate_def saveBookingStatus_def)

text \<open>
  C7, amended. Every booking of the store is still there, at its place, after any core
  operation, and either it is unchanged, or the operation is a cancellation and the
  booking is as before with the status cancelled: the only status a core operation
  writes to a booking is cancelled, and only the cancel operation does. In particular
  a cancelled booking is left exactly as it is by every core operation.
\<close>

theorem status_transitions:
  assumes "k < length (bookings d)"
  shows "k < length (bookings (exec tz d op)) \<and>
         (bookings (exec tz d op) ! k = bookings d ! k
            \<or> (\<exists>usr bid now. op = CancelBooking usr bid now)
               \<and> bookings (exec tz d op) ! k = (bookings d ! k)\<lparr>status := Cancelled\<rparr>) \<and>
         (status (bookings d ! k) = Cancelled \<longrightarrow> bookings (exec tz d op) ! k = bookings d ! k)"
proof (cases op)
  case (BookSlot u sid now)
  then show ?thesis
    using assms bookings_bookSlot[of d now u sid] by (auto simp: nth_append)
next
  case (CancelBooking usr bid now)
  have "b\<lparr>status := Cancelled\<rparr> = b" if "status b = Cancelled" for b :: booking
    using that by simp
  then show ?thesis
    using assms CancelBooking bookings_cancelBooking[of d now usr bid]
      nth_updFirst[OF assms, of _ "\<lambda>b. b\<lparr>status := Cancelled\<rparr>"]
    by (auto; metis)
next
  case (AddSlot s e)
  then show ?thesis using assms by (simp add: bookings_addSlot)
next
  case (RemoveSlot sid)
  then show ?thesis using assms by (simp add: bookings_removeSlot)
next
  case (GenerateSlots n now)
  then show ?thesis using assms by (simp add: bookings_generateSlots)
qed

theorem status_transitions_witness:
  "bookings (exec 0 rebookedDb (CancelBooking \<lparr>user_id = 10, role = Patient\<rparr> (ObjectId 1) aug20)) ! 0
     = bookings rebookedDb ! 0
   \<and> status (bookings (exec 0 rebookedDb
         (CancelBooking \<lparr>user_id = 11, role = Patient\<rparr> (ObjectId 2) aug20)) ! 1) = Cancelled"
proof -
  have k0: "0 < length (bookings rebookedDb)" and k1: "1 < length (bookings rebookedDb)"
    by (simp_all add: rebookedDb_def)
  have c: "status (bookings rebookedDb ! 0) = Cancelled"
    by (simp add: rebookedDb_def)
  have changed: "bookings (exec 0 rebookedDb
        (CancelBooking \<lparr>user_id = 11, role = Patient\<rparr> (ObjectId 2) aug20)) ! 1
      \<noteq> bookings rebookedDb ! 1"
    by (simp add: rebookedDb_def cancelBooking_def findBookingById_def findSlotById_def
        slot0900_def aug20_def findSlotByIdAndUpdate_def saveBookingStatus_def)
  show ?thesis
    using status_transitions[OF k0, of 0 "CancelBooking \<lparr>user_id = 10, role = Patient\<rparr> (ObjectId 1) aug20"]
      status_transitions[OF k1, of 0 "CancelBooking \<lparr>user_id = 11, role = Patient\<rparr> (ObjectId 2) aug20"]
      c changed
    by auto
qed

text \<open>
  No core operation writes the status completed: the stores reached from the empty one
  hold no completed booking.
\<close>

lemma no_completed_exec:
  assumes "list_all (\<lambda>b. status b \<noteq> Completed) (bookings d)"
  shows "list_all (\<lambda>b. status b \<noteq> Completed) (bookings (exec tz d op))"
proof (cases op)
  case (BookSlot u sid now)
  have "bookings (fst (bookSlot d now u sid)) = bookings d
      \<or> (\<exists>i. bookings (fst (bookSlot d now u sid)) = bookings d @ [newBooking d u i now])"
    using bookings_saveNewBooking[of "d\<lparr>nextId := Suc (nextId d)\<rparr>"]
    by (auto simp: bookSlot_def split: option.splits reqId.splits prod.splits) (metis fst_conv)+
  with assms BookSlot show ?thesis
    by (auto simp: newBooking_def)
next
  case (CancelBooking usr bid now)
  with assms bookings_cancelBooking[of d now usr bid] show ?thesis
    by (auto simp: list_all_updFirst)
next
  case (AddSlot s e)
  with assms show ?thesis by (simp add: bookings_addSlot)
next
  case (RemoveSlot sid)
  with assms show ?thesis by (simp add: bookings_removeSlot)
next
  case (GenerateSlots n now)
  with assms show ?thesis by (simp add: bookings_generateSlots)
qed

lemma no_completed_reachable:
  "list_all (\<lambda>b. status b \<noteq> Completed) (bookings (execAll tz emptyDb ops))"
proof -
  have "list_all (\<lambda>b. status b \<noteq> Completed) (bookings (foldl (exec tz) d ops))"
    if "list_all (\<lambda>b. status b \<noteq> Completed) (bookings d)" for d
    using that by (induction ops arbitrary: d) (simp_all add: no_completed_exec)
  then show ?thesis
    by (simp add: execAll_def emptyDb_def)
qed

section \<open>Listing slots\<close>

lemma utcDayStart_lower: "- maxTime \<le> t \<Longrightarrow> - maxTime \<le> utcDayStart t"
proof -
  assume "- maxTime \<le> t"
  then have "(- maxTime) div msPerDay \<le> t div msPerDay"
    by (rule zdiv_mono1) (simp add: msPerDay_def)
  then show ?thesis
    by (simp add: utcDayStart_def utcDay_def maxTime_def msPerDay_def)
qed

lemma dateUTC_plainDay:
  assumes "plainDay t"
  shows "dateUTC (Date t) 0 = Date (utcDayStart t)"
    and "dateUTC (Date t) 86399000 = Date (utcDayStart t + 86399000)"
  using assms utcDayStart_lower[of t]
  by (auto simp: plainDay_def dateUTC_def timeClip_def utcDayStart_def)

lemma ceil_days:
  "(ceilDiv ((utcDayStart t + 86399000) - utcDayStart f) msPerDay > 7) = (utcDay t - utcDay f \<ge> 7)"
proof -
  have "- ((utcDay t * 86400000 + 86399000) - utcDay f * 86400000) div 86400000
        = - (utcDay t - utcDay f) - 1"
    by (simp add: algebra_simps zdiv_zminus1_eq_if)
  then show ?thesis
    by (simp add: ceilDiv_def utcDayStart_def msPerDay_def) linarith
qed

text \<open>
  The end of the last day a \<open>Date\<close> can hold is past the last time value: both
  listings answer \<open>INVALID_DATE_FORMAT\<close> for a range that ends on that day.
\<close>

lemma listing_last_day:
  "getAllSlots d (Some (Date 0)) (Some (Date maxTime)) = Failure 400 ''INVALID_DATE_FORMAT''"
  "getAvailableSlots tz d now (Some (Date 0)) (Some (Date maxTime)) ib
     = Failure 400 ''INVALID_DATE_FORMAT''"
  by (simp_all add: getAllSlots_def getAvailableSlots_def dateUTC_def timeClip_def maxTime_def
      year0_def year100_def utcDay_def msPerDay_def)

text \<open>
  C8. The claim: with \<open>from\<close> not in the past, the patient-facing listing fails with
  \<open>DATE_RANGE_TOO_LARGE\<close> if and only if \<open>to - from\<close> exceeds 7 days. It fails for
  \<open>from\<close> = August 1st, 2025 and \<open>to\<close> = August 8th, 2025, seven days apart: the
  handler counts the days from the start of \<open>from\<close> to the end of \<open>to\<close>, eight here,
  and rejects the range.
\<close>

theorem seven_day_range_rejected:
  "getAvailableSlots 0 emptyDb 1753000000000 (Some (Date 1754006400000)) (Some (Date 1754611200000)) False
     = Failure 400 ''DATE_RANGE_TOO_LARGE''
   \<and> \<not> (1754611200000 - 1754006400000 > 7 * msPerDay)
   \<and> \<not> (utcDayStart 1754006400000 < localMidnight 0 1753000000000)"
  by (simp add: getAvailableSlots_def dateUTC_def timeClip_def maxTime_def year0_def year100_def
      utcDayStart_def utcDay_def localMidnight_def msPerDay_def ceilDiv_def)

text \<open>
  C8, amended. Let \<open>from\<close> and \<open>to\<close> be dates outside the years 0 to 99 whose days,
  from 00:00:00 to 23:59:59, lie within the time values of \<open>Date\<close>. With \<open>from\<close> not in
  the past, the patient-facing listing fails with \<open>DATE_RANGE_TOO_LARGE\<close> if and only
  if the UTC dates of \<open>to\<close> and \<open>from\<close> are 7 or more days apart, that is, if and only
  if the span from 00:00:00 of \<open>from\<close> to 23:59:59 of \<open>to\<close> exceeds 7 days; a range of
  dates less than 7 days apart is listed; and the admin listing answers with the slots
  for any two such dates, past or far apart.
\<close>

theorem date_range_limit:
  assumes "plainDay f" and "plainDay t"
  shows "(\<not> utcDayStart f < localMidnight tz now \<longrightarrow>
      ((getAvailableSlots tz d now (Some (Date f)) (Some (Date t)) ib
          = Failure 400 ''DATE_RANGE_TOO_LARGE'') = (utcDay t - utcDay f \<ge> 7))
      \<and> (utcDay t - utcDay f < 7 \<longrightarrow>
            getAvailableSlots tz d now (Some (Date f)) (Some (Date t)) ib
              = Success 200 (listing d (utcDayStart f) (utcDayStart t + 86399000) (\<not> ib))))
   \<and> ((utcDay t - utcDay f \<ge> 7)
        = ((utcDayStart t + 86399000) - utcDayStart f > 7 * msPerDay))
   \<and> getAllSlots d (Some (Date f)) (Some (Date t))
        = Success 200 (listing d (utcDayStart f) (utcDayStart t + 86399000) False)"
proof -
  have span: "(utcDay t - utcDay f \<ge> 7)
      = ((utcDayStart t + 86399000) - utcDayStart f > 7 * msPerDay)"
    by (auto simp: utcDayStart_def msPerDay_def)
  show ?thesis
    using ceil_days[of t f] span
    by (auto simp: getAvailableSlots_def getAllSlots_def dateUTC_plainDay[OF assms(1)]
        dateUTC_plainDay[OF assms(2)])
qed

theorem date_range_limit_witness:
  "getAvailableSlots 0 emptyDb 1753000000000 (Some (Date 1754006400000)) (Some (Date 1754524800000)) False
     = Success 200 (listing emptyDb 1754006400000 1754611199000 True)
   \<and> getAvailableSlots 0 emptyDb 1753000000000 (Some (Date 1754006400000)) (Some (Date 1754611200000)) False
     = Failure 400 ''DATE_RANGE_TOO_LARGE''
   \<and> getAllSlots emptyDb (Some (Date 1754006400000)) (Some (Date 1754611200000))
     = Success 200 (listing emptyDb 1754006400000 1754697599000 False)"
proof -
  have plain: "plainDay 1754006400000" "plainDay 1754524800000" "plainDay 1754611200000"
    by (simp_all add: plainDay_def year0_def year100_def maxTime_def utcDayStart_def utcDay_def
        msPerDay_def)
  have notPast: "\<not> utcDayStart 1754006400000 < localMidnight 0 1753000000000"
    by (simp add: utcDayStart_def utcDay_def localMidnight_def msPerDay_def)
  have six: "utcDay 1754524800000 - utcDay 1754006400000 = 6"
    and seven: "utcDay 1754611200000 - utcDay 1754006400000 = 7"
    by (simp_all add: utcDay_def msPerDay_def)
  have starts: "utcDayStart 1754006400000 = 1754006400000"
    "utcDayStart 1754524800000 = 1754524800000" "utcDayStart 1754611200000 = 1754611200000"
    by (simp_all add: utcDayStart_def utcDay_def msPerDay_def)
  show ?thesis
    using date_range_limit[OF plain(1) plain(2), of 0 1753000000000 emptyDb False]
      date_range_limit[OF plain(1) plain(3), of 0 1753000000000 emptyDb False]
      notPast six seven starts
    by simp
qed

section \<open>Generating slots\<close>

lemma upt_9_17: "[9..<17] = [9, 10, 11, 12, 13, 14, 15, 16::nat]"
  by (simp add: upt_rec)

lemma upt_0_16: "[0..<16] = [0, 1, 2, 3, 4, 5, 6, 7, 8, 9, 10, 11, 12, 13, 14, 15::nat]"
  by (simp add: upt_rec)

lemma daySlotTimes_eq: "daySlotTimes t = spec_daySlots (utcDay t)"
  by (simp add: daySlotTimes_def spec_daySlots_def upt_9_17 upt_0_16 utcDayStart_def)

lemma utcDay_shift: "0 \<le> r \<Longrightarrow> r < msPerDay \<Longrightarrow> utcDay (n * msPerDay + r) = n"
  by (simp add: utcDay_def msPerDay_def)

lemma utcDay_9h: "utcDay (n * msPerDay + 9 * 3600000) = n"
  by (rule utcDay_shift) (simp_all add: msPerDay_def)

lemma utcDay_spec_daySlots: "p \<in> set (spec_daySlots n) \<Longrightarrow> utcDay (fst p) = n"
  unfolding spec_daySlots_def
  by (auto simp: add.assoc intro!: utcDay_shift) (simp_all add: msPerDay_def)

lemma startDate_eq:
  "utcDayStart (now + msPerDay) + 9 * 3600000 + int k * msPerDay
     = (utcDay now + 1 + int k) * msPerDay + 9 * 3600000"
proof -
  have "utcDay (now + msPerDay) = utcDay now + 1"
    by (simp add: utcDay_def msPerDay_def)
  then show ?thesis
    by (simp add: utcDayStart_def algebra_simps)
qed

lemma getDay_local:
  assumes "- (9 * 3600000) \<le> tz" and "tz < 15 * 3600000"
  shows "getDay tz (n * msPerDay + 9 * 3600000) = (n + 4) mod 7"
proof -
  have "(n * msPerDay + (9 * 3600000 + tz)) div msPerDay = n"
    using assms utcDay_shift[of "9 * 3600000 + tz" n] by (simp add: utcDay_def msPerDay_def)
  then show ?thesis by (simp add: getDay_def add.assoc)
qed

lemma localWeekend_canonical:
  "- (9 * 3600000) \<le> tz \<Longrightarrow> tz < 15 * 3600000 \<Longrightarrow> localWeekend tz n = spec_isWeekend n"
  unfolding localWeekend_def spec_isWeekend_def by (simp only: getDay_local)

lemma filter_concat_one:
  assumes "day < n"
    and "\<And>j p. j < n \<Longrightarrow> p \<in> set (f j) \<Longrightarrow> P p = (j = day)"
  shows "filter P (concat (map f [0..<n])) = f day"
  using assms
proof (induction n)
  case 0
  then show ?case by simp
next
  case (Suc n)
  have last: "filter P (f n) = (if n = day then f n else [])"
    using Suc.prems(2)[of n] by (auto simp: filter_empty_conv filter_id_conv)
  show ?case
  proof (cases "day < n")
    case True
    then have "filter P (concat (map f [0..<n])) = f day"
      using Suc by simp
    with True last show ?thesis by simp
  next
    case False
    then have d: "day = n" using Suc.prems(1) by simp
    have "\<not> P p" if "j < n" and "p \<in> set (f j)" for j p
      using Suc.prems(2)[of j p] that d by simp
    then have "filter P (concat (map f [0..<n])) = []"
      by (auto simp: filter_empty_conv)
    with d last show ?thesis by simp
  qed
qed

text \<open>The times generated for one day of the window.\<close>

lemma weekdaySlotTimes_of_day:
  assumes "day < days"
  shows "filter (\<lambda>p. utcDay (fst p) = utcDay now + 1 + int day)
           (weekdaySlotTimes tz (utcDayStart (now + msPerDay) + 9 * 3600000) days)
         = (if localWeekend tz (utcDay now + 1 + int day) then []
            else spec_daySlots (utcDay now + 1 + int day))"
proof -
  let ?f = "\<lambda>j. if localWeekend tz (utcDay now + 1 + int j) then []
                 else spec_daySlots (utcDay now + 1 + int j)"
  have w: "weekdaySlotTimes tz (utcDayStart (now + msPerDay) + 9 * 3600000) days
        = concat (map ?f [0..<days])"
    unfolding weekdaySlotTimes_def startDate_eq daySlotTimes_eq localWeekend_def
    by (simp only: utcDay_9h)
  have "filter (\<lambda>p. utcDay (fst p) = utcDay now + 1 + int day) (concat (map ?f [0..<days])) = ?f day"
    by (rule filter_concat_one[OF assms]) (auto dest: utcDay_spec_daySlots split: if_splits)
  with w show ?thesis by simp
qed

text \<open>What \<open>insertMany\<close> appends to the store.\<close>

lemma slots_foldl_insertSlot:
  "slots (foldl insertSlot d ps) = slots d @ newSlots (nextId d) ps"
  by (induction ps arbitrary: d) (simp_all add: insertSlot_def)

lemma length_newSlots [simp]: "length (newSlots n ps) = length ps"
  by (induction ps arbitrary: n) simp_all

lemma filter_newSlots:
  "map (\<lambda>s. (startAt s, endAt s, isBooked s)) (filter (\<lambda>s. P (startAt s)) (newSlots n ps))
     = map (\<lambda>p. (fst p, snd p, False)) (filter (\<lambda>p. P (fst p)) ps)"
  by (induction ps arbitrary: n) simp_all

lemma generateSlots_inserted:
  assumes "daysParam = Some (Num q) \<or> (daysParam = None \<and> q = 7)"
    and "1 \<le> q" and "q \<le> 30"
  shows "generateSlots tz d now daysParam =
           (d\<lparr>slots := slots d @ newSlots (nextId d)
                 (filter (\<lambda>p. findSlotByTimes d (fst p) (snd p) = None)
                    (weekdaySlotTimes tz (utcDayStart (now + msPerDay) + 9 * 3600000) (nat \<lceil>q\<rceil>))),
              nextId := nextId (fst (generateSlots tz d now daysParam))\<rparr>,
            Success 200 (length (filter (\<lambda>p. findSlotByTimes d (fst p) (snd p) = None)
                    (weekdaySlotTimes tz (utcDayStart (now + msPerDay) + 9 * 3600000) (nat \<lceil>q\<rceil>)))))"
  using assms
  by (auto simp: generateSlots_def Let_def slots_foldl_insertSlot intro!: db.equality)

lemma set_newSlots: "(\<lambda>s. (startAt s, endAt s)) ` set (newSlots n ps) = set ps"
  by (induction ps arbitrary: n) auto

lemma findSlotByTimes_None_iff:
  "(findSlotByTimes d a b = None) = ((a, b) \<notin> (\<lambda>s. (startAt s, endAt s)) ` set (slots d))"
  by (auto simp: findSlotByTimes_def find_None_iff)

text \<open>
  Generating again at the same clock reading inserts nothing: every generated time is
  in the store by then.
\<close>

lemma generateSlots_twice:
  assumes "daysParam = Some (Num q) \<or> (daysParam = None \<and> q = 7)"
    and "1 \<le> q" and "q \<le> 30"
  shows "generateSlots tz (fst (generateSlots tz d now daysParam)) now daysParam
           = (fst (generateSlots tz d now daysParam), Success 200 0)"
proof -
  let ?d1 = "fst (generateSlots tz d now daysParam)"
  let ?times = "weekdaySlotTimes tz (utcDayStart (now + msPerDay) + 9 * 3600000) (nat \<lceil>q\<rceil>)"
  let ?new = "filter (\<lambda>p. findSlotByTimes d (fst p) (snd p) = None) ?times"
  have sl: "slots ?d1 = slots d @ newSlots (nextId d) ?new"
    by (subst generateSlots_inserted[OF assms]) simp
  have "findSlotByTimes ?d1 (fst p) (snd p) \<noteq> None" if "p \<in> set ?times" for p
  proof (cases "findSlotByTimes d (fst p) (snd p) = None")
    case True
    with that have "p \<in> set ?new" by simp
    then have "p \<in> (\<lambda>s. (startAt s, endAt s)) ` set (newSlots (nextId d) ?new)"
      by (simp only: set_newSlots)
    then show ?thesis
      by (auto simp: findSlotByTimes_None_iff sl)
  next
    case False
    then show ?thesis
      by (auto simp: findSlotByTimes_None_iff sl)
  qed
  then have "filter (\<lambda>p. findSlotByTimes ?d1 (fst p) (snd p) = None) ?times = []"
    by (simp add: filter_empty_conv)
  then show ?thesis
    using assms by (auto simp: generateSlots_def[of tz ?d1] Let_def)
qed

text \<open>
  C9. The claim: for each non-weekend day of the window slot generation produces
  exactly 16 slots. Generating for Friday, August 22nd, 2025 inserts its 16 slots
  into the empty store; generating again for the same day inserts none and leaves the
  store as it is, the handler skipping every time that a slot of the store has.
\<close>

theorem regeneration_inserts_nothing:
  "snd (generateSlots 0 emptyDb aug21noon (Some (Num 1))) = Success 200 16
   \<and> generateSlots 0 (fst (generateSlots 0 emptyDb aug21noon (Some (Num 1))))
         aug21noon (Some (Num 1))
       = (fst (generateSlots 0 emptyDb aug21noon (Some (Num 1))), Success 200 0)
   \<and> \<not> spec_isWeekend (utcDay aug21noon + 1)"
proof -
  have first: "snd (generateSlots 0 emptyDb aug21noon (Some (Num 1))) = Success 200 16"
    by (simp add: generateSlots_def weekdaySlotTimes_def daySlotTimes_def
        findSlotByTimes_def emptyDb_def aug21noon_def
        getDay_def utcDayStart_def utcDay_def msPerDay_def upt_9_17 Let_def)
  have friday: "\<not> spec_isWeekend (utcDay aug21noon + 1)"
    by (simp add: spec_isWeekend_def utcDay_def aug21noon_def msPerDay_def)
  have "generateSlots 0 (fst (generateSlots 0 emptyDb aug21noon (Some (Num 1))))
         aug21noon (Some (Num 1))
       = (fst (generateSlots 0 emptyDb aug21noon (Some (Num 1))), Success 200 0)"
    by (rule generateSlots_twice[of _ 1]) simp_all
  with first friday show ?thesis by simp
qed

text \<open>
  C9, amended. Let the clock be from the year 100 on and at least 32 days before the
  last time value, and let \<open>days\<close> be a number from 1 to 30, or absent and then 7. The
  handler keeps the slots of the store, appends the slots it generates and answers with
  their number. For each of the first \<open>days\<close> (rounded up) UTC days after today, the
  slots it appends that start on that day are: none, if 9:00 UTC of the day falls on a
  Saturday or a Sunday of the server's local clock; otherwise those of the sixteen
  thirty-minute slots from 09:00 to 17:00 UTC of the day whose times no slot of the
  store has, in order and free. On the canonical clock, and on every local clock from
  9 hours behind to less than 15 hours ahead of it, the local Saturdays and Sundays
  are those of the canonical clock.
\<close>

theorem generated_slots_of_day:
  assumes "year100 \<le> now" and "now + 32 * msPerDay \<le> maxTime"
    and "daysParam = Some (Num q) \<or> (daysParam = None \<and> q = 7)"
    and "1 \<le> q" and "q \<le> 30" and "day < nat \<lceil>q\<rceil>"
  shows "take (length (slots d)) (slots (fst (generateSlots tz d now daysParam))) = slots d
   \<and> snd (generateSlots tz d now daysParam)
       = Success 200 (length (insertedSlots d (fst (generateSlots tz d now daysParam))))
   \<and> map (\<lambda>s. (startAt s, endAt s, isBooked s))
         (filter (\<lambda>s. utcDay (startAt s) = utcDay now + 1 + int day)
            (insertedSlots d (fst (generateSlots tz d now daysParam))))
       = map (\<lambda>p. (fst p, snd p, False))
           (if localWeekend tz (utcDay now + 1 + int day) then []
            else filter (\<lambda>p. findSlotByTimes d (fst p) (snd p) = None)
                   (spec_daySlots (utcDay now + 1 + int day)))
   \<and> length (spec_daySlots (utcDay now + 1 + int day)) = 16
   \<and> (- (9 * 3600000) \<le> tz \<and> tz < 15 * 3600000 \<longrightarrow>
        localWeekend tz (utcDay now + 1 + int day) = spec_isWeekend (utcDay now + 1 + int day))"
proof -
  let ?D = "utcDay now + 1 + int day"
  let ?times = "weekdaySlotTimes tz (utcDayStart (now + msPerDay) + 9 * 3600000) (nat \<lceil>q\<rceil>)"
  let ?new = "filter (\<lambda>p. findSlotByTimes d (fst p) (snd p) = None) ?times"
  note g = generateSlots_inserted[OF assms(3,4,5), of tz d now]
  have sl: "slots (fst (generateSlots tz d now daysParam)) = slots d @ newSlots (nextId d) ?new"
    by (subst g) simp
  have ins: "insertedSlots d (fst (generateSlots tz d now daysParam)) = newSlots (nextId d) ?new"
    by (simp add: insertedSlots_def sl)
  have rsp: "snd (generateSlots tz d now daysParam) = Success 200 (length ?new)"
    by (subst g) simp
  have "filter (\<lambda>p. utcDay (fst p) = ?D) ?new
      = filter (\<lambda>p. findSlotByTimes d (fst p) (snd p) = None)
          (filter (\<lambda>p. utcDay (fst p) = ?D) ?times)"
    by (simp add: conj_commute)
  also have "\<dots> = (if localWeekend tz ?D then []
       else filter (\<lambda>p. findSlotByTimes d (fst p) (snd p) = None) (spec_daySlots ?D))"
    by (simp only: weekdaySlotTimes_of_day[OF assms(6)] if_distrib[of "filter _"] filter.simps)
  finally have day: "filter (\<lambda>p. utcDay (fst p) = ?D) ?new
      = (if localWeekend tz ?D then []
         else filter (\<lambda>p. findSlotByTimes d (fst p) (snd p) = None) (spec_daySlots ?D))" .
  have c1: "take (length (slots d)) (slots (fst (generateSlots tz d now daysParam))) = slots d"
    by (simp add: sl)
  have c2: "snd (generateSlots tz d now daysParam)
       = Success 200 (length (insertedSlots d (fst (generateSlots tz d now daysParam))))"
    by (simp add: rsp ins)
  have c3: "map (\<lambda>s. (startAt s, endAt s, isBooked s))
         (filter (\<lambda>s. utcDay (startAt s) = ?D)
            (insertedSlots d (fst (generateSlots tz d now daysParam))))
       = map (\<lambda>p. (fst p, snd p, False))
           (if localWeekend tz ?D then []
            else filter (\<lambda>p. findSlotByTimes d (fst p) (snd p) = None) (spec_daySlots ?D))"
    unfolding ins filter_newSlots[of "\<lambda>t. utcDay t = ?D"] day ..
  have c4: "length (spec_daySlots ?D) = 16"
    by (simp add: spec_daySlots_def)
  from c1 c2 c3 c4 localWeekend_canonical[of tz ?D] show ?thesis
    by blast
qed

theorem generated_slots_of_day_witness:
  "map (\<lambda>s. (startAt s, endAt s, isBooked s))
     (filter (\<lambda>s. utcDay (startAt s) = 20325)
        (insertedSlots emptyDb (fst (generateSlots 0 emptyDb aug21noon None))))
     = map (\<lambda>p. (fst p, snd p, False)) (spec_daySlots 20325)
   \<and> filter (\<lambda>s. utcDay (startAt s) = 20323)
        (insertedSlots emptyDb (fst (generateSlots 0 emptyDb aug21noon None))) = []
   \<and> hd (spec_daySlots 20325) = (1756112400000, 1756114200000)
   \<and> length (spec_daySlots 20325) = 16"
proof -
  have clock: "year100 \<le> aug21noon" "aug21noon + 32 * msPerDay \<le> maxTime"
    by (simp_all add: year100_def aug21noon_def maxTime_def msPerDay_def)
  have dp: "(None :: jsNumber option) = Some (Num 7) \<or> ((None :: jsNumber option) = None \<and> (7::rat) = 7)"
    and q: "(1::rat) \<le> 7" "(7::rat) \<le> 30"
    by simp_all
  have days: "1 < nat \<lceil>7::rat\<rceil>" "3 < nat \<lceil>7::rat\<rceil>"
    by simp_all
  have day: "utcDay aug21noon = 20321"
    by (simp add: utcDay_def aug21noon_def msPerDay_def)
  have sat: "localWeekend 0 20323" and mon: "\<not> localWeekend 0 20325"
    by (simp_all add: localWeekend_def getDay_def msPerDay_def)
  have none: "filter (\<lambda>p. findSlotByTimes emptyDb (fst p) (snd p) = None) ps = ps" for ps
    by (simp add: findSlotByTimes_def emptyDb_def)
  have first: "hd (spec_daySlots 20325) = (1756112400000, 1756114200000)"
    by (simp add: spec_daySlots_def upt_0_16 msPerDay_def)
  from generated_slots_of_day[OF clock dp q days(1), of emptyDb 0]
    generated_slots_of_day[OF clock dp q days(2), of emptyDb 0]
  show ?thesis
    using day sat mon first by (simp add: none)
qed

text \<open>
  On a local clock outside that range the weekend test reads another day than the
  slots are made for: ten hours behind UTC, 9:00 UTC of Saturday, August 23rd, 2025 is
  Friday evening, and the sixteen slots of the Saturday are inserted.
\<close>

lemma generateSlots_local_weekday:
  "snd (generateSlots (- 36000000) emptyDb (aug21noon + msPerDay) (Some (Num 1))) = Success 200 16
   \<and> map startAt (slots (fst (generateSlots (- 36000000) emptyDb (aug21noon + msPerDay) (Some (Num 1)))))
       = map fst (spec_daySlots 20323)
   \<and> spec_isWeekend 20323"
  by (simp add: generateSlots_def weekdaySlotTimes_def daySlotTimes_def insertSlot_def
      findSlotByTimes_def emptyDb_def aug21noon_def spec_isWeekend_def spec_daySlots_def
      getDay_def utcDayStart_def utcDay_def msPerDay_def upt_9_17 upt_0_16 Let_def)

section \<open>Double booking\<close>

text \<open>
  The store after the five operations of \<open>doubleCancel\<close>, run one after the other from
  the empty store.
\<close>

lemma doubleCancel_state: "execAll 0 emptyDb doubleCancel = afterDoubleCancel"
  by (simp add: doubleCancel_def afterDoubleCancel_def execAll_def emptyDb_def slot0900_def
      aug20_def addSlot_def bookSlot_def cancelBooking_def findSlotByTimes_def
      insertSlot_def findSlotById_def findConfirmedBooking_def overlappingSlotIds_def
      saveNewBooking_def bookingPreSave_def saveSlotBooked_def slotPreSave_def insertBooking_def newBooking_def
      findBookingById_def saveBookingStatus_def findSlotByIdAndUpdate_def)

text \<open>
  C6. The claim: in every state the core operations reach, \<open>isBooked\<close> is true if and
  only if exactly one confirmed booking references the slot. After \<open>doubleCancel\<close> the
  slot is flagged free while exactly one confirmed booking, that of patient 11,
  references it: the second cancellation of patient 10's booking cleared the flag.
\<close>

theorem double_cancel_breaks_flag:
  "findSlotById (execAll 0 emptyDb doubleCancel) 0 = Some slot0900
   \<and> isBooked slot0900 = False
   \<and> confirmedFor (execAll 0 emptyDb doubleCancel) 0
       = [\<lparr>booking_id = 2, userId = 11, slotId = 0, status = Confirmed, createdAt = aug20\<rparr>]"
  by (simp add: doubleCancel_state afterDoubleCancel_def findSlotById_def confirmedFor_def
      slot0900_def)

text \<open>
  What the booking store looks at when a new booking is saved: the slot (its flag and
  its times) and the identifier of the booking, never the bookings the slot already
  has.
\<close>

lemma saveNewBooking_accepts_iff:
  "(snd (saveNewBooking d b) = None)
     = ((\<exists>s. findSlotById d (slotId b) = Some s \<and> \<not> isBooked s \<and> startAt s < endAt s)
        \<and> booking_id b \<notin> set (map booking_id (bookings d)))"
  by (auto simp: saveNewBooking_def bookingPreSave_def saveSlotBooked_def slotPreSave_def insertBooking_def
      findSlotById_id split: option.splits prod.splits if_splits)

text \<open>
  C2. The claim: the booking store rejects a second confirmed booking of a slot that
  already has one, whatever the pre-check says. The store's only guard is the flag the
  middleware reads, and no unique index backs it: in the state after \<open>doubleCancel\<close>,
  where booking 2 is confirmed for slot 0, saving a new confirmed booking of slot 0
  raises nothing, and the slot then has two confirmed bookings.
\<close>

theorem store_accepts_second_confirmed:
  "snd (saveNewBooking (execAll 0 emptyDb doubleCancel)
          \<lparr>booking_id = 3, userId = 12, slotId = 0, status = Confirmed, createdAt = aug20\<rparr>) = None
   \<and> map booking_id (confirmedFor (execAll 0 emptyDb doubleCancel) 0) = [2]
   \<and> map booking_id (confirmedFor (fst (saveNewBooking (execAll 0 emptyDb doubleCancel)
          \<lparr>booking_id = 3, userId = 12, slotId = 0, status = Confirmed, createdAt = aug20\<rparr>)) 0)
       = [2, 3]"
  by (simp add: doubleCancel_state afterDoubleCancel_def confirmedFor_def slot0900_def
      saveNewBooking_def bookingPreSave_def saveSlotBooked_def slotPreSave_def insertBooking_def findSlotById_def)

section \<open>Concurrent bookings of one slot\<close>

text \<open>
  One request that takes its six steps without another in between does what \<open>bookSlot\<close>
  does.
\<close>

lemma bookStep_sequential:
  "runSchedule [0, 0, 0, 0, 0, 0] (d, [(\<lparr>rq_user = u, rq_slotId = sid, rq_now = now\<rparr>, AtFindSlot)])
     = (fst (bookSlot d now u sid),
        [(\<lparr>rq_user = u, rq_slotId = sid, rq_now = now\<rparr>, Finished (snd (bookSlot d now u sid)))])"
proof -
  let ?rq = "\<lparr>rq_user = u, rq_slotId = sid, rq_now = now\<rparr>"
  show ?thesis
  proof (cases sid)
    case None
    then show ?thesis by (simp add: runSchedule_def bookSlot_def)
  next
    case (Some r)
    show ?thesis
    proof (cases r)
      case NotObjectId
      with Some show ?thesis by (simp add: runSchedule_def bookSlot_def)
    next
      case (ObjectId i)
      show ?thesis
      proof (cases "findSlotById d i")
        case None
        with Some ObjectId show ?thesis by (simp add: runSchedule_def bookSlot_def)
      next
        case (Some s)
        note s = this
        have id: "slot_id s = i" using s by (rule findSlotById_id)
        show ?thesis
        proof (cases "isBooked s \<or> startAt s < now")
          case True
          with \<open>sid = Some r\<close> ObjectId s show ?thesis
            by (auto simp: runSchedule_def bookSlot_def)
        next
          case False
          note free = this
          show ?thesis
          proof (cases "findConfirmedBooking d u (overlappingSlotIds d s)")
            case (Some b)
            with \<open>sid = Some r\<close> ObjectId s free show ?thesis
              by (simp add: runSchedule_def bookSlot_def)
          next
            case None
            let ?d1 = "d\<lparr>nextId := Suc (nextId d)\<rparr>"
            let ?b = "newBooking d u i now"
            have f1: "findSlotById ?d1 (slotId ?b) = Some s"
              using s by (simp add: findSlotById_def newBooking_def)
            have three: "foldl stepThread (d, [(?rq, AtFindSlot)]) [0, 0, 0]
                  = (?d1, [(?rq, AtHookFindSlot s ?b)])"
              using \<open>sid = Some r\<close> ObjectId s free None id by simp
            have rest: "foldl stepThread (?d1, [(?rq, AtHookFindSlot s ?b)]) [0, 0, 0]
                  = (fst (saveNewBooking ?d1 ?b),
                     [(?rq, Finished (case snd (saveNewBooking ?d1 ?b) of
                                        Some e \<Rightarrow> bookSlotCatch e
                                      | None \<Rightarrow> bookingCreated ?b s))])"
              using f1 free id
              by (simp add: saveNewBooking_def bookingPreSave_def saveSlotBooked_def slotPreSave_def
                  insertBooking_def newBooking_def findSlotById_def split: option.splits)
            have "runSchedule [0, 0, 0, 0, 0, 0] (d, [(?rq, AtFindSlot)])
                  = foldl stepThread (foldl stepThread (d, [(?rq, AtFindSlot)]) [0, 0, 0]) [0, 0, 0]"
              by (simp add: runSchedule_def)
            also have "\<dots> = (fst (saveNewBooking ?d1 ?b),
                     [(?rq, Finished (case snd (saveNewBooking ?d1 ?b) of
                                        Some e \<Rightarrow> bookSlotCatch e
                                      | None \<Rightarrow> bookingCreated ?b s))])"
              unfolding three rest ..
            also have "\<dots> = (fst (bookSlot d now u sid),
                               [(?rq, Finished (snd (bookSlot d now u sid)))])"
              using \<open>sid = Some r\<close> ObjectId s free None
              by (simp add: bookSlot_def split: prod.splits option.splits)
            finally show ?thesis .
          qed
        qed
      qed
    qed
  qed
qed

text \<open>
  C1. The claim: of the concurrent \<open>bookSlot\<close> attempts on one slot exactly one creates
  a confirmed booking and every other one gets the conflict \<open>SLOT_TAKEN\<close>, also when
  two requests pass the \<open>isBooked\<close> pre-check together. Two requests on the free slot
  of \<open>oneSlotDb\<close>: when both have passed the middleware's check before either saves the
  slot, both end with 201 and the slot has two confirmed bookings; when the second has
  only passed the handler's pre-check before the first completes, the second ends with
  500 \<open>BOOKING_ERROR\<close>, the middleware's error carrying no code 11000.
\<close>

theorem concurrent_bookSlot_double_booking:
  "map snd (snd (runSchedule [0, 0, 0, 0, 1, 1, 1, 1, 0, 0, 1, 1]
                   (oneSlotDb, [(reqA, AtFindSlot), (reqB, AtFindSlot)])))
     = [Finished (Success 201 \<lparr>bv_id = 1, bv_slot = 0, bv_startAt = 1756112400000,
                    bv_endAt = 1756114200000, bv_status = Confirmed, bv_createdAt = aug20\<rparr>),
        Finished (Success 201 \<lparr>bv_id = 2, bv_slot = 0, bv_startAt = 1756112400000,
                    bv_endAt = 1756114200000, bv_status = Confirmed, bv_createdAt = aug20\<rparr>)]
   \<and> map booking_id (confirmedFor (fst (runSchedule [0, 0, 0, 0, 1, 1, 1, 1, 0, 0, 1, 1]
                   (oneSlotDb, [(reqA, AtFindSlot), (reqB, AtFindSlot)]))) 0) = [1, 2]
   \<and> map snd (snd (runSchedule [0, 1, 0, 0, 0, 0, 0, 1, 1, 1]
                   (oneSlotDb, [(reqA, AtFindSlot), (reqB, AtFindSlot)])))
     = [Finished (Success 201 \<lparr>bv_id = 1, bv_slot = 0, bv_startAt = 1756112400000,
                    bv_endAt = 1756114200000, bv_status = Confirmed, bv_createdAt = aug20\<rparr>),
        Finished (Failure 500 ''BOOKING_ERROR'')]"
  by (simp add: runSchedule_def oneSlotDb_def reqA_def reqB_def slot0900_def aug20_def
      findSlotById_def overlappingSlotIds_def findConfirmedBooking_def newBooking_def
      saveSlotBooked_def slotPreSave_def insertBooking_def bookingCreated_def bookSlotCatch_def confirmedFor_def)

end
